theory Spec2Isabelle
  imports Main
begin

section \<open>JSON values as the handlers see them\<close>

text \<open>
  A parsed JSON document. An object is kept as the list of its own properties (a parsed
  object has each key once; the first binding is the one looked up). Numbers are never
  computed with by the code below: only whether a number is zero is ever observed, so an
  integer stands for it. A JavaScript value that may be \<^verbatim>\<open>undefined\<close> is a
  \<open>json option\<close>, with \<open>None\<close> for \<^verbatim>\<open>undefined\<close>.
\<close>

datatype json =
    JNull
  | JBool bool
  | JNum int
  | JStr string
  | JArr "json list"
  | JObj "(string \<times> json) list"

text \<open>JavaScript truthiness of a JSON value (\<^verbatim>\<open>!x\<close> is its negation).\<close>

fun truthy :: "json \<Rightarrow> bool" where
  "truthy JNull = False"
| "truthy (JBool b) = b"
| "truthy (JNum n) = (n \<noteq> 0)"
| "truthy (JStr s) = (s \<noteq> [])"
| "truthy (JArr xs) = True"
| "truthy (JObj kvs) = True"

fun truthyv :: "json option \<Rightarrow> bool" where
  "truthyv None = False"
| "truthyv (Some v) = truthy v"

text \<open>\<^verbatim>\<open>typeof x === "object"\<close>: true of null, of arrays and of objects.\<close>

fun typeof_object :: "json option \<Rightarrow> bool" where
  "typeof_object (Some JNull) = True"
| "typeof_object (Some (JArr xs)) = True"
| "typeof_object (Some (JObj kvs)) = True"
| "typeof_object _ = False"

text \<open>\<^verbatim>\<open>typeof x === "string" ? x : (nothing)\<close>.\<close>

fun as_string :: "json option \<Rightarrow> string option" where
  "as_string (Some (JStr s)) = Some s"
| "as_string _ = None"

text \<open>
  Reading the property \<open>k\<close> of a value that is neither null nor undefined. The keys read
  by the code (\<open>error\<close>, \<open>message\<close>, \<open>details\<close>, \<open>client_secret\<close>, \<open>workflow\<close>, ...) are
  not properties of any prototype, so only an object can hold them; on an array, a
  string, a number or a boolean the read gives \<^verbatim>\<open>undefined\<close>. Every read in the source
  is guarded against null and undefined, and the models below keep those guards in front
  of each read.
\<close>

fun get_prop :: "json \<Rightarrow> string \<Rightarrow> json option" where
  "get_prop (JObj kvs) k = map_of kvs k"
| "get_prop _ k = None"

fun get_propv :: "json option \<Rightarrow> string \<Rightarrow> json option" where
  "get_propv (Some v) k = get_prop v k"
| "get_propv None k = None"

text \<open>\<^verbatim>\<open>k in x\<close> for a truthy value of type object.\<close>

fun has_key :: "json option \<Rightarrow> string \<Rightarrow> bool" where
  "has_key (Some (JObj kvs)) k = (map_of kvs k \<noteq> None)"
| "has_key _ k = False"

text \<open>Optional chaining \<^verbatim>\<open>x?.k\<close>: undefined when \<open>x\<close> is null or undefined.\<close>

fun opt_chain :: "json option \<Rightarrow> string \<Rightarrow> json option" where
  "opt_chain None k = None"
| "opt_chain (Some JNull) k = None"
| "opt_chain (Some v) k = get_prop v k"

text \<open>Nullish coalescing \<^verbatim>\<open>x ?? y\<close>.\<close>

fun nullish :: "json option \<Rightarrow> json \<Rightarrow> json" where
  "nullish None d = d"
| "nullish (Some JNull) d = d"
| "nullish (Some v) d = v"

section \<open>Upstream error extraction\<close>

subsection \<open>\<^verbatim>\<open>extractUpstreamError\<close> of \<^verbatim>\<open>src/app/api/create-session/route.ts\<close>\<close>

definition extractUpstreamError :: "json \<Rightarrow> string option" where
  "extractUpstreamError payload =
     (if \<not> truthy payload then None
      else
        let error = get_prop payload ''error'' in
        case as_string error of
          Some s \<Rightarrow> Some s
        | None \<Rightarrow>
          (case (if truthyv error \<and> typeof_object error \<and> has_key error ''message''
                 then as_string (get_propv error ''message'') else None) of
             Some msg \<Rightarrow> Some msg
           | None \<Rightarrow>
             let details = get_prop payload ''details'' in
             (case as_string details of
                Some s \<Rightarrow> Some s
              | None \<Rightarrow>
                (case (if truthyv details \<and> typeof_object details \<and> has_key details ''error''
                       then
                         let nested = get_propv details ''error'' in
                         (case as_string nested of
                            Some s \<Rightarrow> Some s
                          | None \<Rightarrow>
                            if truthyv nested \<and> typeof_object nested \<and> has_key nested ''message''
                            then as_string (get_propv nested ''message'') else None)
                       else None) of
                   Some msg \<Rightarrow> Some msg
                 | None \<Rightarrow> as_string (get_prop payload ''message'')))))"

subsection \<open>\<^verbatim>\<open>getNestedMessage\<close> and \<^verbatim>\<open>extractUpstreamError\<close> of \<^verbatim>\<open>src/unnamed/part_000\<close>\<close>

text \<open>\<^verbatim>\<open>isRecord\<close>: \<^verbatim>\<open>typeof value === "object" && value !== null\<close>.\<close>

fun isRecord :: "json option \<Rightarrow> bool" where
  "isRecord (Some (JArr xs)) = True"
| "isRecord (Some (JObj kvs)) = True"
| "isRecord _ = False"

definition getNestedMessage :: "json option \<Rightarrow> string option" where
  "getNestedMessage obj =
     (if \<not> isRecord obj then None
      else
        let err = get_propv obj ''error'' in
        case (if isRecord err then as_string (get_propv err ''message'') else None) of
          Some msg \<Rightarrow> Some msg
        | None \<Rightarrow>
          (case as_string (get_propv obj ''message'') of
             Some top_msg \<Rightarrow> Some top_msg
           | None \<Rightarrow>
             let details = get_propv obj ''details'' in
             if isRecord details
             then
               let inner = get_propv details ''error'' in
               (case as_string inner of
                  Some s \<Rightarrow> Some s
                | None \<Rightarrow>
                  if isRecord inner then as_string (get_propv inner ''message'') else None)
             else None))"

text \<open>\<^verbatim>\<open>if (msg) return msg\<close>: a null and an empty message both fall through.\<close>

definition extractUpstreamError_part0 :: "json \<Rightarrow> string option" where
  "extractUpstreamError_part0 payload =
     (case getNestedMessage (Some payload) of
        Some (c # cs) \<Rightarrow> Some (c # cs)
      | _ \<Rightarrow>
        if isRecord (Some payload) then as_string (get_prop payload ''error'') else None)"


section \<open>Strings\<close>

text \<open>
  A \<open>string\<close> is the list of the code units of a JavaScript string, one \<open>char\<close> for each
  code unit below 256. That is every string an HTTP header can hold (\<^verbatim>\<open>Headers.get\<close>
  returns a byte string), every id \<^verbatim>\<open>crypto.randomUUID\<close> or
  \<^verbatim>\<open>Math.random().toString(36)\<close> can produce, and every literal of the source.
\<close>

text \<open>
  The white space of \<^verbatim>\<open>String.prototype.trim\<close> and of the regular expression class
  for white space among these code units: tab, line feed, vertical tab, form feed, carriage
  return, space and no-break space.
\<close>

definition js_whitespace :: "char \<Rightarrow> bool" where
  "js_whitespace c \<longleftrightarrow>
     c = CHR 0x09 \<or> c = CHR 0x0A \<or> c = CHR 0x0B \<or> c = CHR 0x0C \<or> c = CHR 0x0D \<or>
     c = CHR 0x20 \<or> c = CHR 0xA0"

text \<open>\<^verbatim>\<open>s.trim()\<close>.\<close>

definition trim :: "string \<Rightarrow> string" where
  "trim s = rev (dropWhile js_whitespace (rev (dropWhile js_whitespace s)))"

text \<open>\<^verbatim>\<open>s.split(d)\<close> for a one-character separator: never the empty list.\<close>

fun split_on :: "char \<Rightarrow> string \<Rightarrow> string list" where
  "split_on d [] = [[]]"
| "split_on d (c # cs) =
     (if c = d then [] # split_on d cs
      else (case split_on d cs of
              p # ps \<Rightarrow> (c # p) # ps
            | [] \<Rightarrow> [[c]]))"

text \<open>\<^verbatim>\<open>parts.join(sep)\<close>.\<close>

fun join :: "string \<Rightarrow> string list \<Rightarrow> string" where
  "join sep [] = []"
| "join sep [x] = x"
| "join sep (x # y # ys) = x @ sep @ join sep (y # ys)"

text \<open>\<^verbatim>\<open>s.replace(/\s+/g, " ")\<close>: every maximal run of white space becomes one space.\<close>

function replace_ws_runs :: "string \<Rightarrow> string" where
  "replace_ws_runs [] = []"
| "replace_ws_runs (c # cs) =
     (if js_whitespace c then CHR 0x20 # replace_ws_runs (dropWhile js_whitespace cs)
      else c # replace_ws_runs cs)"
  by pat_completeness auto
termination
  by (relation "measure length") (auto simp: length_dropWhile_le less_Suc_eq_le)

text \<open>The decimal digits of a number, as a template literal prints it.\<close>

function show_nat :: "nat \<Rightarrow> string" where
  "show_nat n =
     (if n < 10 then [''0123456789'' ! n]
      else show_nat (n div 10) @ [''0123456789'' ! (n mod 10)])"
  by pat_completeness auto
termination
  by (relation "measure id") auto

declare show_nat.simps [simp del]

text \<open>
  \<^verbatim>\<open>encodeURIComponent\<close>: letters, digits and \<^verbatim>\<open>- _ . ! ~ * ' ( )\<close> stay; every
  other code unit is written as the percent-escaped bytes of its UTF-8 encoding (one byte
  below 128, two bytes from 128 to 255).
\<close>

definition uri_unreserved :: "char \<Rightarrow> bool" where
  "uri_unreserved c \<longleftrightarrow>
     (let n = (of_char c :: nat) in
      (65 \<le> n \<and> n \<le> 90) \<or> (97 \<le> n \<and> n \<le> 122) \<or> (48 \<le> n \<and> n \<le> 57) \<or>
      c \<in> set ''-_.!~*()'' \<or> c = CHR 0x27)"

definition percent_byte :: "nat \<Rightarrow> string" where
  "percent_byte b =
     [CHR ''%'', ''0123456789ABCDEF'' ! (b div 16), ''0123456789ABCDEF'' ! (b mod 16)]"

definition encode_unit :: "char \<Rightarrow> string" where
  "encode_unit c =
     (let n = (of_char c :: nat) in
      if uri_unreserved c then [c]
      else if n < 128 then percent_byte n
      else percent_byte (192 + n div 64) @ percent_byte (128 + n mod 64))"

definition encodeURIComponent :: "string \<Rightarrow> string" where
  "encodeURIComponent s = concat (map encode_unit s)"


section \<open>The session route: \<^verbatim>\<open>src/app/api/create-session/route.ts\<close>\<close>

subsection \<open>Environment, request, upstream call and response\<close>

text \<open>
  What the handler reads from outside: three environment variables (absent or a string),
  the constant \<open>WORKFLOW_ID\<close> imported from \<^verbatim>\<open>@/lib/config\<close> (that module is not
  part of the sources at hand, so its value is a parameter), and \<open>generated\<close>, the id that
  \<^verbatim>\<open>crypto.randomUUID()\<close> (or the \<^verbatim>\<open>Math.random\<close> fallback) yields for this request.
\<close>

record env =
  OPENAI_API_KEY :: "string option"
  CHATKIT_API_BASE :: "string option"
  NODE_ENV :: "string option"
  WORKFLOW_ID :: string
  generated :: string

text \<open>
  The incoming request: the value of \<^verbatim>\<open>request.headers.get("cookie")\<close>, the outcome of
  \<^verbatim>\<open>req.text()\<close> (\<open>None\<close> when it rejects) and the outcome of \<^verbatim>\<open>JSON.parse\<close> on
  that text (\<open>None\<close> when it throws).
\<close>

record request =
  req_cookie :: "string option"
  req_text :: "string option"
  req_parsed :: "json option"

record upstream_call =
  call_url :: string
  call_method :: string
  call_headers :: "(string \<times> string) list"
  call_body :: json

text \<open>
  What \<^verbatim>\<open>fetch\<close> gives back: a rejection, or a response with its status, its status
  text and the outcome of \<^verbatim>\<open>upstreamResponse.json()\<close> (\<open>None\<close> when the body is not
  JSON and the promise rejects).
\<close>

datatype fetch_result =
    FetchRejected
  | Upstream nat string "json option"

record response =
  resp_status :: nat
  resp_headers :: "(string \<times> string) list"
  resp_body :: json

datatype js_error = RangeError | TypeError | NetworkError

definition DEFAULT_CHATKIT_BASE :: string where
  "DEFAULT_CHATKIT_BASE = ''https://api.openai.com''"

definition SESSION_COOKIE_NAME :: string where
  "SESSION_COOKIE_NAME = ''chatkit_session_id''"

definition SESSION_COOKIE_MAX_AGE :: nat where
  "SESSION_COOKIE_MAX_AGE = 60 * 60 * 24 * 30"

text \<open>\<^verbatim>\<open>response.ok\<close>: a status from 200 to 299.\<close>

definition response_ok :: "nat \<Rightarrow> bool" where
  "response_ok st \<longleftrightarrow> 200 \<le> st \<and> st \<le> 299"

text \<open>Truthiness of a \<^verbatim>\<open>string | null | undefined\<close>.\<close>

fun truthy_string :: "string option \<Rightarrow> bool" where
  "truthy_string None = False"
| "truthy_string (Some s) = (s \<noteq> [])"

text \<open>
  \<^verbatim>\<open>new Response(body, { status, headers })\<close> with a body that is not null, as the Fetch
  standard defines the constructor: a \<^verbatim>\<open>RangeError\<close> unless the status is from 200 to
  599, and a \<^verbatim>\<open>TypeError\<close> when the status is a null-body status (101, 103, 204, 205
  or 304; the first two are out of range already). The body is kept as the JSON value
  that \<^verbatim>\<open>JSON.stringify\<close> prints.
\<close>

definition new_Response :: "json \<Rightarrow> nat \<Rightarrow> (string \<times> string) list \<Rightarrow> js_error + response" where
  "new_Response payload st hs =
     (if st < 200 \<or> 599 < st then Inl RangeError
      else if st = 204 \<or> st = 205 \<or> st = 304 then Inl TypeError
      else Inr \<lparr>resp_status = st, resp_headers = hs, resp_body = payload\<rparr>)"

text \<open>The helper \<^verbatim>\<open>json(payload, status, headers, sessionCookie)\<close>.\<close>

definition json_response ::
  "json \<Rightarrow> nat \<Rightarrow> (string \<times> string) list option \<Rightarrow> string option \<Rightarrow> js_error + response" where
  "json_response payload st hs sessionCookie =
     (let resHeaders = (case hs of Some h \<Rightarrow> h
                        | None \<Rightarrow> [(''Content-Type'', ''application/json'')]);
          resHeaders' = (case sessionCookie of
                           None \<Rightarrow> resHeaders
                         | Some c \<Rightarrow> if c = [] then resHeaders
                                     else resHeaders @ [(''Set-Cookie'', c)])
      in new_Response payload st resHeaders')"

subsection \<open>Cookie helpers\<close>

text \<open>The loop of \<^verbatim>\<open>getCookieValue\<close> over the parts of the header.\<close>

fun find_cookie :: "string list \<Rightarrow> string \<Rightarrow> string option" where
  "find_cookie [] name = None"
| "find_cookie (part # parts) name =
     (case split_on CHR ''='' part of
        [] \<Rightarrow> find_cookie parts name
      | rawName # rest \<Rightarrow>
          if rawName = [] \<or> rest = [] then find_cookie parts name
          else if trim rawName = name then Some (trim (join ''='' rest))
          else find_cookie parts name)"

definition getCookieValue :: "string option \<Rightarrow> string \<Rightarrow> string option" where
  "getCookieValue header name =
     (case header of
        None \<Rightarrow> None
      | Some h \<Rightarrow> if h = [] then None else find_cookie (split_on CHR '';'' h) name)"

definition serializeSessionCookie :: "env \<Rightarrow> string \<Rightarrow> string" where
  "serializeSessionCookie e v =
     (let attrs = [SESSION_COOKIE_NAME @ ''='' @ encodeURIComponent v,
                   ''Path=/'',
                   ''Max-Age='' @ show_nat SESSION_COOKIE_MAX_AGE,
                   ''HttpOnly'',
                   ''SameSite=Lax''];
          attrs' = (if NODE_ENV e = Some ''production'' then attrs @ [''Secure''] else attrs)
      in join ''; '' attrs')"

text \<open>\<^verbatim>\<open>resolveUserId\<close>: the pair of \<open>userId\<close> and \<open>sessionCookie\<close>.\<close>

definition resolveUserId :: "env \<Rightarrow> request \<Rightarrow> string \<times> string option" where
  "resolveUserId e req =
     (let fresh = (generated e, Some (serializeSessionCookie e (generated e))) in
      case getCookieValue (req_cookie req) SESSION_COOKIE_NAME of
        None \<Rightarrow> fresh
      | Some existing \<Rightarrow> if existing = [] then fresh else (existing, None))"

text \<open>\<^verbatim>\<open>safeParseJson\<close>: the parsed body, or null.\<close>

definition safeParseJson :: "request \<Rightarrow> json" where
  "safeParseJson req =
     (case req_text req of
        None \<Rightarrow> JNull
      | Some t \<Rightarrow>
          if t = [] then JNull
          else (case req_parsed req of None \<Rightarrow> JNull | Some j \<Rightarrow> j))"


subsection \<open>The handler \<^verbatim>\<open>POST\<close>\<close>

text \<open>\<^verbatim>\<open>a ?? b\<close> where \<open>b\<close> may itself be undefined.\<close>

fun nullish_opt :: "json option \<Rightarrow> json option \<Rightarrow> json option" where
  "nullish_opt None d = d"
| "nullish_opt (Some JNull) d = d"
| "nullish_opt (Some v) d = Some v"

text \<open>The payload of the upstream-error response (the object literal given to \<^verbatim>\<open>json\<close>).\<close>

definition upstream_error_payload :: "nat \<Rightarrow> string \<Rightarrow> json \<Rightarrow> json" where
  "upstream_error_payload st statusText upstreamJson =
     JObj [(''error'',
            JStr (case extractUpstreamError upstreamJson of
                    Some upstreamError \<Rightarrow> upstreamError
                  | None \<Rightarrow> ''Failed to create session: '' @ show_nat st @ '' '' @ statusText)),
           (''details'', upstreamJson)]"

text \<open>The payload of the happy path.\<close>

definition session_payload :: "json \<Rightarrow> json" where
  "session_payload upstreamJson =
     JObj [(''client_secret'', nullish (opt_chain (Some upstreamJson) ''client_secret'') JNull),
           (''expires_after'', nullish (opt_chain (Some upstreamJson) ''expires_after'') JNull)]"

text \<open>
  The \<^verbatim>\<open>catch\<close> block: whatever is thrown inside \<^verbatim>\<open>try\<close> becomes the generic 500,
  with the session cookie resolved so far.
\<close>

definition catch_unexpected :: "string option \<Rightarrow> js_error + response \<Rightarrow> js_error + response" where
  "catch_unexpected sessionCookie r =
     (case r of
        Inr resp \<Rightarrow> Inr resp
      | Inl err \<Rightarrow>
          json_response (JObj [(''error'', JStr ''Unexpected error while creating session'')])
            500 None sessionCookie)"

text \<open>Lines 50 to 52: the workflow id from the body, its alias, or the configuration.\<close>

definition resolveWorkflowId :: "env \<Rightarrow> json \<Rightarrow> json" where
  "resolveWorkflowId e body =
     nullish
       (nullish_opt (opt_chain (opt_chain (Some body) ''workflow'') ''id'')
          (opt_chain (Some body) ''workflowId''))
       (JStr (WORKFLOW_ID e))"

text \<open>Lines 67 to 91: the request sent to the provider.\<close>

definition upstream_request :: "env \<Rightarrow> json \<Rightarrow> string \<Rightarrow> json \<Rightarrow> upstream_call" where
  "upstream_request e body userId resolvedWorkflowId =
     (let apiBase = (case CHATKIT_API_BASE e of Some b \<Rightarrow> b | None \<Rightarrow> DEFAULT_CHATKIT_BASE);
          url = apiBase @ ''/v1/chatkit/sessions'';
          fileUploadEnabled =
            nullish
              (opt_chain (opt_chain (opt_chain (Some body) ''chatkit_configuration'')
                 ''file_upload'') ''enabled'')
              (JBool False)
      in \<lparr>call_url = url,
          call_method = ''POST'',
          call_headers =
            [(''Authorization'',
                ''Bearer '' @ (case OPENAI_API_KEY e of Some k \<Rightarrow> k | None \<Rightarrow> [])),
             (''Content-Type'', ''application/json''),
             (''OpenAI-Beta'', ''chatkit_beta=v1'')],
          call_body =
            JObj [(''user'', JStr userId),
                  (''workflow'', JObj [(''id'', resolvedWorkflowId)]),
                  (''chatkit_configuration'',
                     JObj [(''file_upload'', JObj [(''enabled'', fileUploadEnabled)])])]\<rparr>)"

text \<open>
  Lines 75 to 126, from the moment \<^verbatim>\<open>fetch\<close> settles: a rejection is thrown; a body
  that is not JSON is replaced by the empty object.
\<close>

definition after_fetch :: "fetch_result \<Rightarrow> string option \<Rightarrow> js_error + response" where
  "after_fetch fetched sessionCookie =
     (case fetched of
        FetchRejected \<Rightarrow> Inl NetworkError
      | Upstream st statusText parsed \<Rightarrow>
          let upstreamJson = (case parsed of Some j \<Rightarrow> j | None \<Rightarrow> JObj []) in
          if \<not> response_ok st then
            json_response (upstream_error_payload st statusText upstreamJson)
              st None sessionCookie
          else
            json_response (session_payload upstreamJson) 200 None sessionCookie)"

text \<open>
  \<^verbatim>\<open>POST\<close>, with the upstream provider as a function from the call made to what
  \<^verbatim>\<open>fetch\<close> gives back. The result is the call sent upstream, if one was sent, and the
  outcome of the handler (\<open>Inl\<close> would be a rejected promise). The two \<open>hint\<close> texts
  are shortened (the source's have an arrow and quotation marks); nothing reads them.
\<close>

definition POST ::
  "env \<Rightarrow> (upstream_call \<Rightarrow> fetch_result) \<Rightarrow> request \<Rightarrow> upstream_call option \<times> (js_error + response)" where
  "POST e upstream req =
     (if \<not> truthy_string (OPENAI_API_KEY e) then
        (None,
         catch_unexpected None
           (json_response
              (JObj [(''error'', JStr ''Missing OPENAI_API_KEY environment variable''),
                     (''hint'', JStr ''Set it in Vercel - Project - Settings - Environment Variables'')])
              500 None None))
      else
        let (userId, sessionCookie) = resolveUserId e req;
            body = safeParseJson req;
            resolvedWorkflowId = resolveWorkflowId e body
        in
        if \<not> truthy resolvedWorkflowId then
          (None,
           catch_unexpected sessionCookie
             (json_response
                (JObj [(''error'', JStr ''Missing workflow id''),
                       (''hint'', JStr ''Provide a workflow id in the POST body, or set WORKFLOW_ID'')])
                400 None sessionCookie))
        else
          let call = upstream_request e body userId resolvedWorkflowId in
          (Some call, catch_unexpected sessionCookie (after_fetch (upstream call) sessionCookie)))"

section \<open>The chat panel: \<^verbatim>\<open>ChatKitPanel\<close> of \<^verbatim>\<open>src/unnamed/part_003\<close>\<close>

subsection \<open>State\<close>

record ErrorState =
  script :: "string option"
  session :: "string option"
  integration :: "string option"
  retryable :: bool

text \<open>\<^verbatim>\<open>Partial<ErrorState>\<close>: for each field, \<open>None\<close> when the update leaves it out.\<close>

record ErrorUpdate =
  upd_script :: "string option option"
  upd_session :: "string option option"
  upd_integration :: "string option option"
  upd_retryable :: "bool option"

definition no_update :: ErrorUpdate where
  "no_update = \<lparr>upd_script = None, upd_session = None, upd_integration = None,
                 upd_retryable = None\<rparr>"

datatype script_status = Pending | Ready | Failed

text \<open>
  The state and the refs of the component: \<open>isMounted\<close> is \<^verbatim>\<open>isMountedRef.current\<close>,
  \<open>processedFacts\<close> is \<^verbatim>\<open>processedFacts.current\<close>.
\<close>

record panel =
  errors :: ErrorState
  isInitializingSession :: bool
  isMounted :: bool
  processedFacts :: "string set"
  scriptStatus :: script_status
  widgetInstanceKey :: nat

definition createInitialErrors :: ErrorState where
  "createInitialErrors = \<lparr>script = None, session = None, integration = None,
                           retryable = False\<rparr>"

text \<open>\<^verbatim>\<open>setErrors((current) => ({ ...current, ...updates }))\<close>.\<close>

definition merge_errors :: "ErrorState \<Rightarrow> ErrorUpdate \<Rightarrow> ErrorState" where
  "merge_errors current u =
     \<lparr>script = (case upd_script u of Some v \<Rightarrow> v | None \<Rightarrow> script current),
      session = (case upd_session u of Some v \<Rightarrow> v | None \<Rightarrow> session current),
      integration = (case upd_integration u of Some v \<Rightarrow> v | None \<Rightarrow> integration current),
      retryable = (case upd_retryable u of Some v \<Rightarrow> v | None \<Rightarrow> retryable current)\<rparr>"

definition setErrorState :: "ErrorUpdate \<Rightarrow> panel \<Rightarrow> panel" where
  "setErrorState u s = s\<lparr>errors := merge_errors (errors s) u\<rparr>"

definition setIsInitializingSession :: "bool \<Rightarrow> panel \<Rightarrow> panel" where
  "setIsInitializingSession b s = s\<lparr>isInitializingSession := b\<rparr>"

text \<open>The cleanup of the mount effect.\<close>

definition unmount :: "panel \<Rightarrow> panel" where
  "unmount s = s\<lparr>isMounted := False\<rparr>"

text \<open>
  \<^verbatim>\<open>handleResetChat\<close>; \<open>hasComponent\<close> is what \<^verbatim>\<open>hasChatKitWebComponent()\<close> answers.
\<close>

definition handleResetChat :: "bool \<Rightarrow> panel \<Rightarrow> panel" where
  "handleResetChat hasComponent s =
     s\<lparr>processedFacts := {},
       scriptStatus := (if hasComponent then Ready else Pending),
       isInitializingSession := True,
       errors := createInitialErrors,
       widgetInstanceKey := widgetInstanceKey s + 1\<rparr>"

definition onThreadChange :: "panel \<Rightarrow> panel" where
  "onThreadChange s = s\<lparr>processedFacts := {}\<rparr>"

subsection \<open>Session creation: \<^verbatim>\<open>getClientSecret\<close>\<close>

text \<open>
  \<^verbatim>\<open>Boolean(WORKFLOW_ID && !WORKFLOW_ID.startsWith("wf_replace"))\<close>, with the constant of
  \<^verbatim>\<open>@/lib/config\<close> as a parameter.
\<close>

definition isWorkflowConfigured :: "string \<Rightarrow> bool" where
  "isWorkflowConfigured wid \<longleftrightarrow>
     wid \<noteq> [] \<and> take (length ''wf_replace'') wid \<noteq> ''wf_replace''"

definition extractErrorDetail :: "json \<Rightarrow> string \<Rightarrow> string" where
  "extractErrorDetail payload fallback =
     (if \<not> truthy payload then fallback
      else
        let errStr = get_prop payload ''error'' in
        case as_string errStr of
          Some s \<Rightarrow> s
        | None \<Rightarrow>
          (case (if isRecord errStr then as_string (get_propv errStr ''message'') else None) of
             Some msg \<Rightarrow> msg
           | None \<Rightarrow>
             let detailsStr = get_prop payload ''details'' in
             (case as_string detailsStr of
                Some s \<Rightarrow> s
              | None \<Rightarrow>
                (case (if isRecord detailsStr
                       then
                         let nested = get_propv detailsStr ''error'' in
                         (case as_string nested of
                            Some s \<Rightarrow> Some s
                          | None \<Rightarrow>
                            if isRecord nested then as_string (get_propv nested ''message'')
                            else None)
                       else None) of
                   Some m \<Rightarrow> m
                 | None \<Rightarrow>
                   (case as_string (get_prop payload ''message'') of
                      Some topMsg \<Rightarrow> topMsg
                    | None \<Rightarrow> fallback)))))"

text \<open>A thrown value: an \<^verbatim>\<open>Error\<close> with its message, or anything else.\<close>

datatype thrown = Error string | NotAnError

text \<open>
  What the awaited calls of \<^verbatim>\<open>getClientSecret\<close> come to: \<^verbatim>\<open>fetch\<close> rejects,
  \<^verbatim>\<open>response.text()\<close> rejects, or a response arrives with \<^verbatim>\<open>response.ok\<close>, its
  status text, its text and the outcome of \<^verbatim>\<open>JSON.parse\<close> on that text (\<open>None\<close>
  when it throws).
\<close>

datatype session_fetch =
    FetchThrows thrown
  | TextThrows thrown
  | Responded bool string string "json option"

text \<open>
  The part of \<^verbatim>\<open>getClientSecret\<close> that runs before the first \<^verbatim>\<open>await\<close>: the new
  state, and the error thrown when the workflow is not configured.
\<close>

definition getClientSecret_begin :: "string \<Rightarrow> string option \<Rightarrow> panel \<Rightarrow> panel \<times> thrown option" where
  "getClientSecret_begin wid currentSecret s =
     (if \<not> isWorkflowConfigured wid then
        let detail = ''Set NEXT_PUBLIC_CHATKIT_WORKFLOW_ID in your .env.local file.'' in
        ((if isMounted s
          then setIsInitializingSession False
                 (setErrorState
                    (no_update\<lparr>upd_session := Some (Some detail), upd_retryable := Some False\<rparr>) s)
          else s),
         Some (Error detail))
      else
        ((if isMounted s
          then setErrorState
                 (no_update\<lparr>upd_session := Some None, upd_integration := Some None,
                            upd_retryable := Some False\<rparr>)
                 (if \<not> truthy_string currentSecret then setIsInitializingSession True s else s)
          else s),
         None))"

text \<open>The body of the \<^verbatim>\<open>try\<close> block after the awaits: the secret, or what is thrown.\<close>

definition session_outcome :: "session_fetch \<Rightarrow> thrown + string" where
  "session_outcome outcome =
     (case outcome of
        FetchThrows t \<Rightarrow> Inl t
      | TextThrows t \<Rightarrow> Inl t
      | Responded ok statusText raw parsed \<Rightarrow>
          let data = (if raw \<noteq> [] then (case parsed of Some j \<Rightarrow> j | None \<Rightarrow> JObj [])
                      else JObj [])
          in
          if \<not> ok then Inl (Error (extractErrorDetail data statusText))
          else
            (case opt_chain (Some data) ''client_secret'' of
               Some (JStr clientSecret) \<Rightarrow>
                 if clientSecret = [] then Inl (Error ''Missing client secret in response'')
                 else Inr clientSecret
             | _ \<Rightarrow> Inl (Error ''Missing client secret in response'')))"

text \<open>
  The part of \<^verbatim>\<open>getClientSecret\<close> that runs once the awaits have settled: the end of
  the \<^verbatim>\<open>try\<close> block, the \<^verbatim>\<open>catch\<close> block and the \<^verbatim>\<open>finally\<close> block, on the state
  the component has by then.
\<close>

definition getClientSecret_settle ::
  "string option \<Rightarrow> session_fetch \<Rightarrow> panel \<Rightarrow> panel \<times> (thrown + string)" where
  "getClientSecret_settle currentSecret outcome s =
     (let (s1, result) =
            (case session_outcome outcome of
               Inr clientSecret \<Rightarrow>
                 ((if isMounted s
                   then setErrorState
                          (no_update\<lparr>upd_session := Some None, upd_integration := Some None\<rparr>) s
                   else s),
                  Inr clientSecret)
             | Inl err \<Rightarrow>
                 let detail = (case err of Error m \<Rightarrow> m
                               | NotAnError \<Rightarrow> ''Unable to start ChatKit session.'')
                 in
                 ((if isMounted s
                   then setErrorState
                          (no_update\<lparr>upd_session := Some (Some detail),
                                     upd_retryable := Some False\<rparr>) s
                   else s),
                  Inl (case err of Error m \<Rightarrow> Error m | NotAnError \<Rightarrow> Error detail)));
          s2 = (if isMounted s1 \<and> \<not> truthy_string currentSecret
                then setIsInitializingSession False s1 else s1)
      in (s2, result))"

text \<open>
  A whole call: \<open>during\<close> is whatever happens to the component while the call waits for
  the network (an unmount, other handlers).
\<close>

definition getClientSecret ::
  "string \<Rightarrow> string option \<Rightarrow> (panel \<Rightarrow> panel) \<Rightarrow> session_fetch \<Rightarrow> panel \<Rightarrow> panel \<times> (thrown + string)" where
  "getClientSecret wid currentSecret during outcome s =
     (case getClientSecret_begin wid currentSecret s of
        (s1, Some err) \<Rightarrow> (s1, Inl err)
      | (s1, None) \<Rightarrow> getClientSecret_settle currentSecret outcome (during s1))"


subsection \<open>Client tools: \<^verbatim>\<open>onClientTool\<close>\<close>

record ClientToolInvocation =
  name :: string
  params :: "(string \<times> json) list"

record FactAction =
  action_type :: string
  factId :: string
  factText :: string

text \<open>The calls made to the callbacks the component receives as props.\<close>

datatype ui_effect =
    ThemeRequest string
  | WidgetAction FactAction

definition getStringParam :: "(string \<times> json) list \<Rightarrow> string \<Rightarrow> string option" where
  "getStringParam ps key = as_string (map_of ps key)"

text \<open>
  \<^verbatim>\<open>onClientTool\<close>: the new state (only \<open>processedFacts\<close> can change), the callbacks
  called, in order, and the \<open>success\<close> field of the object returned.
\<close>

definition onClientTool :: "ClientToolInvocation \<Rightarrow> panel \<Rightarrow> panel \<times> ui_effect list \<times> bool" where
  "onClientTool invocation s =
     (if name invocation = ''switch_theme'' then
        let requested = getStringParam (params invocation) ''theme'' in
        if requested = Some ''light'' \<or> requested = Some ''dark''
        then (s, [ThemeRequest (case requested of Some r \<Rightarrow> r | None \<Rightarrow> [])], True)
        else (s, [], False)
      else if name invocation = ''record_fact'' then
        let fact_id = (case getStringParam (params invocation) ''fact_id'' of
                         Some v \<Rightarrow> v | None \<Rightarrow> []);
            fact_text = (case getStringParam (params invocation) ''fact_text'' of
                           Some v \<Rightarrow> v | None \<Rightarrow> [])
        in
        if fact_id = [] \<or> fact_id \<in> processedFacts s then (s, [], True)
        else
          (s\<lparr>processedFacts := insert fact_id (processedFacts s)\<rparr>,
           [WidgetAction \<lparr>action_type = ''save'', factId = fact_id,
                          factText = trim (replace_ws_runs fact_text)\<rparr>],
           True)
      else (s, [], False))"

text \<open>A sequence of invocations, one after the other, with all the callbacks called.\<close>

fun run_tools :: "ClientToolInvocation list \<Rightarrow> panel \<Rightarrow> panel \<times> ui_effect list" where
  "run_tools [] s = (s, [])"
| "run_tools (invocation # rest) s =
     (case onClientTool invocation s of
        (s1, effects, success) \<Rightarrow>
          (case run_tools rest s1 of (s2, effects') \<Rightarrow> (s2, effects @ effects')))"

text \<open>The saves of one fact id among the callbacks called.\<close>

fun is_save_of :: "string \<Rightarrow> ui_effect \<Rightarrow> bool" where
  "is_save_of i (WidgetAction a) = (factId a = i)"
| "is_save_of i (ThemeRequest t) = False"

subsection \<open>Rendering\<close>








section \<open>Notions of the specification\<close>

subsection \<open>The shapes an upstream error message can take\<close>

text \<open>The field \<open>k\<close> of a payload when the payload is an object and the field a string.\<close>

definition string_field :: "json \<Rightarrow> string \<Rightarrow> string option" where
  "string_field p k =
     (case p of
        JObj kvs \<Rightarrow> (case map_of kvs k of Some (JStr s) \<Rightarrow> Some s | _ \<Rightarrow> None)
      | _ \<Rightarrow> None)"

text \<open>The field \<open>k\<close> of a payload when the payload is an object and the field an object.\<close>

definition object_field :: "json \<Rightarrow> string \<Rightarrow> json option" where
  "object_field p k =
     (case p of
        JObj kvs \<Rightarrow> (case map_of kvs k of Some (JObj f) \<Rightarrow> Some (JObj f) | _ \<Rightarrow> None)
      | _ \<Rightarrow> None)"

text \<open>
  The six shapes, in the order of the specification: \<open>error\<close>, \<open>error.message\<close>,
  \<open>details\<close>, \<open>details.error\<close>, \<open>details.error.message\<close>, \<open>message\<close>.
\<close>

definition error_shapes :: "json \<Rightarrow> string option list" where
  "error_shapes p =
     [string_field p ''error'',
      (case object_field p ''error'' of Some e \<Rightarrow> string_field e ''message'' | None \<Rightarrow> None),
      string_field p ''details'',
      (case object_field p ''details'' of Some d \<Rightarrow> string_field d ''error'' | None \<Rightarrow> None),
      (case object_field p ''details'' of
         Some d \<Rightarrow>
           (case object_field d ''error'' of
              Some e \<Rightarrow> string_field e ''message''
            | None \<Rightarrow> None)
       | None \<Rightarrow> None),
      string_field p ''message'']"

fun first_string :: "string option list \<Rightarrow> string option" where
  "first_string [] = None"
| "first_string (Some s # xs) = Some s"
| "first_string (None # xs) = first_string xs"

text \<open>
  The four shapes that \<^verbatim>\<open>getNestedMessage\<close> of \<^verbatim>\<open>part_000\<close> reads, in its order:
  \<open>error.message\<close>, \<open>message\<close>, \<open>details.error\<close>, \<open>details.error.message\<close>.
\<close>

definition nested_shapes :: "json \<Rightarrow> string option list" where
  "nested_shapes p =
     [(case object_field p ''error'' of Some e \<Rightarrow> string_field e ''message'' | None \<Rightarrow> None),
      string_field p ''message'',
      (case object_field p ''details'' of Some d \<Rightarrow> string_field d ''error'' | None \<Rightarrow> None),
      (case object_field p ''details'' of
         Some d \<Rightarrow>
           (case object_field d ''error'' of
              Some e \<Rightarrow> string_field e ''message''
            | None \<Rightarrow> None)
       | None \<Rightarrow> None)]"

text \<open>The same shapes, read off a field that may be absent.\<close>

definition or_else :: "'a option \<Rightarrow> 'a option \<Rightarrow> 'a option" where
  "or_else a b = (case a of Some x \<Rightarrow> Some x | None \<Rightarrow> b)"

definition message_in :: "json option \<Rightarrow> string option" where
  "message_in x = (case x of Some (JObj f) \<Rightarrow> as_string (map_of f ''message'') | _ \<Rightarrow> None)"

definition error_in :: "json option \<Rightarrow> string option" where
  "error_in x = (case x of Some (JObj f) \<Rightarrow> as_string (map_of f ''error'') | _ \<Rightarrow> None)"

definition error_message_in :: "json option \<Rightarrow> string option" where
  "error_message_in x =
     (case x of Some (JObj f) \<Rightarrow> message_in (map_of f ''error'') | _ \<Rightarrow> None)"

subsection \<open>The words of a text\<close>

text \<open>The maximal runs of characters that are not white space, in order.\<close>

function ws_words :: "string \<Rightarrow> string list" where
  "ws_words s =
     (case dropWhile js_whitespace s of
        [] \<Rightarrow> []
      | c # cs \<Rightarrow>
          (c # takeWhile (\<lambda>x. \<not> js_whitespace x) cs) #
          ws_words (dropWhile (\<lambda>x. \<not> js_whitespace x) cs))"
  by pat_completeness auto
termination
proof (relation "measure length")
  fix s c cs
  assume "dropWhile js_whitespace s = c # cs"
  then have "length (c # cs) \<le> length s"
    by (metis length_dropWhile_le)
  moreover have "length (dropWhile (\<lambda>x. \<not> js_whitespace x) cs) \<le> length cs"
    by (rule length_dropWhile_le)
  ultimately show "(dropWhile (\<lambda>x. \<not> js_whitespace x) cs, s) \<in> measure length"
    by simp
qed simp

declare ws_words.simps [simp del]

text \<open>A text without the white space at its end.\<close>

definition rtrim :: "string \<Rightarrow> string" where
  "rtrim s = rev (dropWhile js_whitespace (rev s))"

subsection \<open>Responses\<close>

definition generic_error :: json where
  "generic_error = JObj [(''error'', JStr ''Unexpected error while creating session'')]"

text \<open>The field \<open>k\<close> of the upstream JSON, or null when there is none.\<close>

definition field_or_null :: "json \<Rightarrow> string \<Rightarrow> json" where
  "field_or_null j k =
     (case j of
        JObj kvs \<Rightarrow> (case map_of kvs k of Some v \<Rightarrow> v | None \<Rightarrow> JNull)
      | _ \<Rightarrow> JNull)"

subsection \<open>Cookie headers\<close>

text \<open>
  A Cookie header as a browser writes it: pairs \<open>name=value\<close> joined by a semicolon and
  a space. A pair is well formed when the name is not empty and has no semicolon, equals
  sign or white space, and the value has no semicolon and no white space at either end.
\<close>

definition render_pair :: "string \<times> string \<Rightarrow> string" where
  "render_pair p = fst p @ ''='' @ snd p"

definition cookie_header :: "(string \<times> string) list \<Rightarrow> string" where
  "cookie_header pairs = join ''; '' (map render_pair pairs)"

definition well_formed_pair :: "string \<times> string \<Rightarrow> bool" where
  "well_formed_pair p \<longleftrightarrow>
     fst p \<noteq> [] \<and>
     (\<forall>c\<in>set (fst p). c \<noteq> CHR '';'' \<and> c \<noteq> CHR ''='' \<and> \<not> js_whitespace c) \<and>
     CHR '';'' \<notin> set (snd p) \<and> trim (snd p) = snd p"

text \<open>
  The cookie that a Cookie header presents under a name, whatever the header is: among
  the parts of the header between semicolons, the first that has an equals sign with a
  name before it that is not empty and is the given name once trimmed; its value is
  what follows the first equals sign, trimmed.
\<close>

definition names_cookie :: "string \<Rightarrow> string \<Rightarrow> bool" where
  "names_cookie nm part \<longleftrightarrow>
     CHR ''='' \<in> set part \<and> takeWhile (\<lambda>c. c \<noteq> CHR ''='') part \<noteq> [] \<and>
     trim (takeWhile (\<lambda>c. c \<noteq> CHR ''='') part) = nm"

definition cookie_value :: "string \<Rightarrow> string \<Rightarrow> string option" where
  "cookie_value h nm =
     (case filter (names_cookie nm) (split_on CHR '';'' h) of
        [] \<Rightarrow> None
      | part # _ \<Rightarrow> Some (trim (tl (dropWhile (\<lambda>c. c \<noteq> CHR ''='') part))))"

definition request_cookie :: "request \<Rightarrow> string \<Rightarrow> string option" where
  "request_cookie req nm =
     (case req_cookie req of None \<Rightarrow> None | Some h \<Rightarrow> cookie_value h nm)"

text \<open>
  The request carries exactly these cookies: its Cookie header is the header of the
  pairs, or, when there are none, is absent.
\<close>

definition carries_cookies :: "request \<Rightarrow> (string \<times> string) list \<Rightarrow> bool" where
  "carries_cookies req pairs \<longleftrightarrow>
     list_all well_formed_pair pairs \<and>
     (req_cookie req = Some (cookie_header pairs) \<or> (pairs = [] \<and> req_cookie req = None))"

text \<open>The value of the \<open>Set-Cookie\<close> header of a response, if it has one.\<close>

definition set_cookie :: "response \<Rightarrow> string option" where
  "set_cookie r = map_of (resp_headers r) ''Set-Cookie''"

text \<open>The \<open>user\<close> field of the body sent upstream.\<close>

definition sent_user :: "upstream_call \<Rightarrow> json option" where
  "sent_user call = get_prop (call_body call) ''user''"


section \<open>Sample inputs\<close>

text \<open>Concrete environments, requests, providers and panel states, used in the examples.\<close>

definition sample_env :: env where
  "sample_env = \<lparr>OPENAI_API_KEY = Some ''sk-test'', CHATKIT_API_BASE = None,
                  NODE_ENV = Some ''production'', WORKFLOW_ID = ''wf_123'',
                  generated = ''ab-1''\<rparr>"

definition sample_env_no_key :: env where
  "sample_env_no_key = sample_env\<lparr>OPENAI_API_KEY := None\<rparr>"

definition sample_cookie :: string where
  "sample_cookie =
     ''chatkit_session_id=ab-1; Path=/; Max-Age=2592000; HttpOnly; SameSite=Lax; Secure''"

text \<open>A first visit: no Cookie header, an empty body.\<close>

definition sample_request :: request where
  "sample_request = \<lparr>req_cookie = None, req_text = Some [], req_parsed = None\<rparr>"

text \<open>A returning visitor, and a visitor whose cookie has lost its value.\<close>

definition returning_cookies :: "(string \<times> string) list" where
  "returning_cookies = [(''theme'', ''dark''), (''chatkit_session_id'', ''v-7'')]"

definition returning_request :: request where
  "returning_request =
     \<lparr>req_cookie = Some ''theme=dark; chatkit_session_id=v-7'', req_text = Some [],
      req_parsed = None\<rparr>"

definition empty_cookie_request :: request where
  "empty_cookie_request =
     \<lparr>req_cookie = Some ''chatkit_session_id='', req_text = Some [], req_parsed = None\<rparr>"

text \<open>A returning visitor whose Cookie header has no space after the semicolon.\<close>

definition compact_request :: request where
  "compact_request =
     \<lparr>req_cookie = Some ''theme=dark;chatkit_session_id=v-7'', req_text = Some [],
      req_parsed = None\<rparr>"

text \<open>The call that \<open>sample_env\<close> sends upstream for the user \<open>u\<close>.\<close>

definition sample_call :: "string \<Rightarrow> upstream_call" where
  "sample_call u =
     \<lparr>call_url = ''https://api.openai.com/v1/chatkit/sessions'',
      call_method = ''POST'',
      call_headers =
        [(''Authorization'', ''Bearer sk-test''),
         (''Content-Type'', ''application/json''),
         (''OpenAI-Beta'', ''chatkit_beta=v1'')],
      call_body =
        JObj [(''user'', JStr u),
              (''workflow'', JObj [(''id'', JStr ''wf_123'')]),
              (''chatkit_configuration'',
                 JObj [(''file_upload'', JObj [(''enabled'', JBool False)])])]\<rparr>"

text \<open>
  Providers: one that answers 404 with an empty JSON object, one that answers 304, one
  that answers 200 with a body that is not JSON, and one that mints a session.
\<close>

definition upstream_404 :: "upstream_call \<Rightarrow> fetch_result" where
  "upstream_404 call = Upstream 404 ''Not Found'' (Some (JObj []))"

definition upstream_304 :: "upstream_call \<Rightarrow> fetch_result" where
  "upstream_304 call = Upstream 304 ''Not Modified'' (Some (JObj []))"

definition upstream_unparsable :: "upstream_call \<Rightarrow> fetch_result" where
  "upstream_unparsable call = Upstream 200 ''OK'' None"

definition upstream_session :: "upstream_call \<Rightarrow> fetch_result" where
  "upstream_session call =
     Upstream 200 ''OK''
       (Some (JObj [(''id'', JStr ''cksess_1''), (''client_secret'', JStr ''cs_1''),
                    (''status'', JStr ''active'')]))"

text \<open>A payload with three of the six shapes at once.\<close>

definition crowded_payload :: json where
  "crowded_payload =
     JObj [(''message'', JStr ''m''), (''details'', JStr ''d''),
           (''error'', JObj [(''message'', JStr ''bad key'')])]"

text \<open>
  The panel as it is first rendered, and what \<^verbatim>\<open>fetch\<close> gives the panel when a gateway
  answers over HTTP/2 (no status text) with an HTML error page.
\<close>

definition initial_panel :: panel where
  "initial_panel =
     \<lparr>errors = createInitialErrors, isInitializingSession = True, isMounted = True,
      processedFacts = {}, scriptStatus = Ready, widgetInstanceKey = 0\<rparr>"

definition gateway_error_page :: session_fetch where
  "gateway_error_page = Responded False [] ''<html>'' None"


text \<open>Client tool invocations.\<close>

definition theme_tool :: "string \<Rightarrow> ClientToolInvocation" where
  "theme_tool t = \<lparr>name = ''switch_theme'', params = [(''theme'', JStr t)]\<rparr>"

definition fact_tool :: "string \<Rightarrow> string \<Rightarrow> ClientToolInvocation" where
  "fact_tool i t =
     \<lparr>name = ''record_fact'', params = [(''fact_id'', JStr i), (''fact_text'', JStr t)]\<rparr>"

definition other_tool :: ClientToolInvocation where
  "other_tool = \<lparr>name = ''open_url'', params = []\<rparr>"

section \<open>Error extraction: the order of the shapes\<close>

lemma or_else_simps [simp]: "or_else None b = b" "or_else (Some x) b = Some x"
  by (simp_all add: or_else_def)

lemma guard_message:
  "(if truthyv x \<and> typeof_object x \<and> has_key x ''message''
    then as_string (get_propv x ''message'') else None) = message_in x"
proof (cases x)
  case None
  then show ?thesis by (simp add: message_in_def)
next
  case (Some v)
  then show ?thesis by (cases v) (auto simp: message_in_def)
qed

lemma record_message:
  "(if isRecord x then as_string (get_propv x ''message'') else None) = message_in x"
proof (cases x)
  case None
  then show ?thesis by (simp add: message_in_def)
next
  case (Some v)
  then show ?thesis by (cases v) (auto simp: message_in_def)
qed

lemma guard_details:
  "(if truthyv d \<and> typeof_object d \<and> has_key d ''error''
    then
      (case as_string (get_propv d ''error'') of Some s \<Rightarrow> Some s
       | None \<Rightarrow> message_in (get_propv d ''error''))
    else None) = or_else (error_in d) (error_message_in d)"
proof (cases d)
  case None
  then show ?thesis by (simp add: error_in_def error_message_in_def)
next
  case (Some v)
  show ?thesis
  proof (cases v)
    case (JObj f)
    show ?thesis
    proof (cases "map_of f ''error''")
      case None
      with Some JObj show ?thesis by (simp add: error_in_def error_message_in_def message_in_def)
    next
      case (Some e)
      with \<open>d = Some v\<close> JObj show ?thesis
        by (simp add: error_in_def error_message_in_def or_else_def split: option.splits)
    qed
  qed (use Some in \<open>simp_all add: error_in_def error_message_in_def\<close>)
qed

lemma record_details:
  "(if isRecord d then
      (case as_string (get_propv d ''error'') of Some s \<Rightarrow> Some s
       | None \<Rightarrow> message_in (get_propv d ''error''))
    else None) = or_else (error_in d) (error_message_in d)"
proof (cases d)
  case None
  then show ?thesis by (simp add: error_in_def error_message_in_def)
next
  case (Some v)
  show ?thesis
  proof (cases v)
    case (JObj f)
    with Some show ?thesis
      by (simp add: error_in_def error_message_in_def or_else_def split: option.splits)
  qed (use Some in \<open>simp_all add: error_in_def error_message_in_def message_in_def\<close>)
qed

lemma extractUpstreamError_chain:
  "extractUpstreamError p =
     (if \<not> truthy p then None
      else or_else (as_string (get_prop p ''error''))
        (or_else (message_in (get_prop p ''error''))
          (or_else (as_string (get_prop p ''details''))
            (or_else (or_else (error_in (get_prop p ''details'')) (error_message_in (get_prop p ''details'')))
              (as_string (get_prop p ''message''))))))"
  unfolding extractUpstreamError_def Let_def guard_message guard_details
  by (simp add: or_else_def split: option.splits)

lemma getNestedMessage_chain:
  "getNestedMessage (Some p) =
     (if \<not> isRecord (Some p) then None
      else or_else (message_in (get_prop p ''error''))
        (or_else (as_string (get_prop p ''message''))
           (or_else (error_in (get_prop p ''details'')) (error_message_in (get_prop p ''details'')))))"
  unfolding getNestedMessage_def Let_def get_propv.simps record_message record_details
  by (simp add: or_else_def split: option.splits)

lemma string_field_eq: "string_field p k = as_string (get_prop p k)"
proof (cases p)
  case (JObj kvs)
  show ?thesis
  proof (cases "map_of kvs k")
    case None
    with JObj show ?thesis by (simp add: string_field_def)
  next
    case (Some v)
    with JObj show ?thesis by (cases v) (simp_all add: string_field_def)
  qed
qed (simp_all add: string_field_def)

lemma object_field_cases:
  "(case object_field p k of Some e \<Rightarrow> F e | None \<Rightarrow> None) =
   (case get_prop p k of Some (JObj f) \<Rightarrow> F (JObj f) | _ \<Rightarrow> None)"
proof (cases p)
  case (JObj kvs)
  show ?thesis
  proof (cases "map_of kvs k")
    case None
    with JObj show ?thesis by (simp add: object_field_def)
  next
    case (Some v)
    with JObj show ?thesis by (cases v) (simp_all add: object_field_def)
  qed
qed (simp_all add: object_field_def)

lemma message_in_eq:
  "message_in x = (case x of Some (JObj f) \<Rightarrow> string_field (JObj f) ''message'' | _ \<Rightarrow> None)"
  by (simp add: message_in_def string_field_eq split: option.splits json.splits)

lemma error_in_eq:
  "error_in x = (case x of Some (JObj f) \<Rightarrow> string_field (JObj f) ''error'' | _ \<Rightarrow> None)"
  by (simp add: error_in_def string_field_eq split: option.splits json.splits)

lemma error_message_in_eq:
  "error_message_in x =
     (case x of Some (JObj f) \<Rightarrow>
        (case object_field (JObj f) ''error'' of Some e \<Rightarrow> string_field e ''message'' | None \<Rightarrow> None)
      | _ \<Rightarrow> None)"
  unfolding object_field_cases error_message_in_def message_in_eq
  by (simp split: option.splits json.splits)

lemma error_shapes_eq:
  "error_shapes p =
     [as_string (get_prop p ''error''), message_in (get_prop p ''error''),
      as_string (get_prop p ''details''), error_in (get_prop p ''details''),
      error_message_in (get_prop p ''details''), as_string (get_prop p ''message'')]"
  unfolding error_shapes_def
  by (simp add: message_in_eq error_in_eq error_message_in_eq object_field_cases string_field_eq [symmetric]
      cong: option.case_cong json.case_cong)

lemma first_string_Cons: "first_string (x # xs) = or_else x (first_string xs)"
  by (cases x) simp_all

lemma shapes_falsy: "\<not> truthy p \<Longrightarrow> get_prop p k = None"
  by (cases p) simp_all

lemma extractUpstreamError_first_string:
  "extractUpstreamError p = first_string (error_shapes p)"
proof (cases "truthy p")
  case True
  then show ?thesis
    unfolding extractUpstreamError_chain error_shapes_eq first_string_Cons
    by (simp add: or_else_def split: option.splits)
next
  case False
  then show ?thesis
    unfolding extractUpstreamError_chain error_shapes_eq first_string_Cons
    by (simp add: shapes_falsy message_in_def error_in_def error_message_in_def)
qed


lemma non_object_route: "\<forall>kvs. p \<noteq> JObj kvs \<Longrightarrow> extractUpstreamError p = None"
  unfolding extractUpstreamError_chain
  by (cases p) (simp_all add: message_in_def error_in_def error_message_in_def)

lemma non_object_part0: "\<forall>kvs. p \<noteq> JObj kvs \<Longrightarrow> extractUpstreamError_part0 p = None"
  unfolding extractUpstreamError_part0_def getNestedMessage_chain
  by (cases p) (simp_all add: message_in_def error_in_def error_message_in_def)

lemma nested_shapes_eq:
  "nested_shapes p =
     [message_in (get_prop p ''error''), as_string (get_prop p ''message''),
      error_in (get_prop p ''details''), error_message_in (get_prop p ''details'')]"
  unfolding nested_shapes_def
  by (simp add: message_in_eq error_in_eq error_message_in_eq object_field_cases
      string_field_eq [symmetric] cong: option.case_cong json.case_cong)

text \<open>The two orders, compared on the six shapes taken as they come.\<close>

lemma agree_exact_core:
  fixes E EM D DE DEM M :: "string option"
  shows "((case or_else EM (or_else M (or_else DE DEM)) of
             Some (c # cs) \<Rightarrow> Some (c # cs) | _ \<Rightarrow> E) =
          or_else E (or_else EM (or_else D (or_else (or_else DE DEM) M)))) \<longleftrightarrow>
         (case first_string [EM, M, DE, DEM] of
            Some (c # cs) \<Rightarrow> first_string [E, EM, D, DE, DEM, M] = Some (c # cs)
          | Some [] \<Rightarrow> E \<noteq> None
          | None \<Rightarrow> E \<noteq> None \<or> D = None)"
  by (cases E; cases EM; cases D; cases DE; cases DEM; cases M)
     (auto split: list.splits)

lemma agreement_exact:
  "extractUpstreamError_part0 p = extractUpstreamError p \<longleftrightarrow>
     (case first_string (nested_shapes p) of
        Some (c # cs) \<Rightarrow> first_string (error_shapes p) = Some (c # cs)
      | Some [] \<Rightarrow> string_field p ''error'' \<noteq> None
      | None \<Rightarrow> string_field p ''error'' \<noteq> None \<or> string_field p ''details'' = None)"
proof (cases "\<exists>kvs. p = JObj kvs")
  case True
  then have rec: "isRecord (Some p)" "truthy p" by auto
  from rec show ?thesis
    unfolding extractUpstreamError_part0_def getNestedMessage_chain extractUpstreamError_chain
      nested_shapes_eq error_shapes_eq string_field_eq
    using agree_exact_core [where EM = "message_in (get_prop p ''error'')"
        and M = "as_string (get_prop p ''message'')"
        and DE = "error_in (get_prop p ''details'')"
        and DEM = "error_message_in (get_prop p ''details'')"
        and E = "as_string (get_prop p ''error'')"
        and D = "as_string (get_prop p ''details'')"]
    by simp
next
  case False
  then have "get_prop p k = None" for k by (cases p) simp_all
  with False show ?thesis
    unfolding nested_shapes_eq error_shapes_eq string_field_eq
    by (simp add: non_object_route non_object_part0 message_in_def error_in_def
        error_message_in_def)
qed

section \<open>Strings and cookies\<close>

lemma split_on_not_Nil: "split_on d s \<noteq> []"
  by (induction s) (auto split: list.splits)

lemma split_on_first: "d \<notin> set a \<Longrightarrow> split_on d (a @ d # b) = a # split_on d b"
  by (induction a) auto

lemma split_on_absent: "d \<notin> set a \<Longrightarrow> split_on d a = [a]"
  by (induction a) auto

lemma join_Cons2: "ys \<noteq> [] \<Longrightarrow> join sep (x # ys) = x @ sep @ join sep ys"
  by (cases ys) simp_all

lemma join_push: "join sep ((c # p) # ps) = c # join sep (p # ps)"
  by (cases ps) simp_all

lemma join_split_on: "join [d] (split_on d s) = s"
proof (induction s)
  case Nil
  show ?case by simp
next
  case (Cons c cs)
  show ?case
  proof (cases "c = d")
    case True
    with Cons split_on_not_Nil [of d cs] show ?thesis by (simp add: join_Cons2)
  next
    case False
    obtain p ps where sp: "split_on d cs = p # ps"
      using split_on_not_Nil [of d cs] by (cases "split_on d cs") auto
    with Cons False show ?thesis by (simp add: join_push)
  qed
qed

lemma split_join_semicolon:
  assumes "\<forall>p\<in>set (p0 # ps). CHR '';'' \<notin> set p"
  shows "split_on CHR '';'' (join ''; '' (p0 # ps)) = p0 # map ((#) CHR '' '') ps"
  using assms
proof (induction ps arbitrary: p0)
  case Nil
  then show ?case by (simp add: split_on_absent)
next
  case (Cons p1 ps)
  have "join ''; '' (p0 # p1 # ps) = p0 @ CHR '';'' # (CHR '' '' # join ''; '' (p1 # ps))"
    by simp
  moreover have "CHR '';'' \<notin> set p0" using Cons.prems by simp
  ultimately have "split_on CHR '';'' (join ''; '' (p0 # p1 # ps)) =
      p0 # split_on CHR '';'' (CHR '' '' # join ''; '' (p1 # ps))"
    by (simp add: split_on_first)
  moreover have "split_on CHR '';'' (join ''; '' (p1 # ps)) = p1 # map ((#) CHR '' '') ps"
    using Cons.IH [of p1] Cons.prems by simp
  ultimately show ?case by simp
qed

lemma trim_leading_space: "\<forall>c\<in>set n. \<not> js_whitespace c \<Longrightarrow> trim (CHR '' '' # n) = n"
proof -
  assume a: "\<forall>c\<in>set n. \<not> js_whitespace c"
  have d: "dropWhile js_whitespace w = w" if "\<forall>c\<in>set w. \<not> js_whitespace c" for w
    using that by (cases w) auto
  have sp: "js_whitespace CHR '' ''" by (simp add: js_whitespace_def)
  have "dropWhile js_whitespace (CHR '' '' # n) = n" using sp d [OF a] by simp
  moreover from a have "dropWhile js_whitespace (rev n) = rev n" by (intro d) simp
  ultimately show ?thesis by (simp add: trim_def)
qed

lemma trim_no_ws: "\<forall>c\<in>set v. \<not> js_whitespace c \<Longrightarrow> trim v = v"
proof -
  assume a: "\<forall>c\<in>set v. \<not> js_whitespace c"
  have d: "dropWhile js_whitespace w = w" if "\<forall>c\<in>set w. \<not> js_whitespace c" for w
    using that by (cases w) auto
  from a have "dropWhile js_whitespace v = v" by (rule d)
  moreover from a have "dropWhile js_whitespace (rev v) = rev v" by (intro d) simp
  ultimately show ?thesis by (simp add: trim_def)
qed

lemma find_cookie_step:
  assumes wf: "well_formed_pair (n, v)" and part: "part = render_pair (n, v) \<or> part = CHR '' '' # render_pair (n, v)"
  shows "find_cookie (part # parts) nm = (if n = nm then Some v else find_cookie parts nm)"
proof -
  from wf have n: "n \<noteq> []" "CHR ''='' \<notin> set n" "\<forall>c\<in>set n. \<not> js_whitespace c"
    and v: "trim v = v"
    by (auto simp: well_formed_pair_def)
  obtain sp where sp: "part = sp @ n @ CHR ''='' # v" "sp = [] \<or> sp = [CHR '' '']"
    using part by (auto simp: render_pair_def)
  then have "CHR ''='' \<notin> set (sp @ n)" using n by auto
  then have "split_on CHR ''='' ((sp @ n) @ CHR ''='' # v) = (sp @ n) # split_on CHR ''='' v"
    by (rule split_on_first)
  then have s: "split_on CHR ''='' part = (sp @ n) # split_on CHR ''='' v"
    using sp by simp
  have t: "trim (sp @ n) = n"
    using sp(2) trim_no_ws [OF n(3)] trim_leading_space [OF n(3)] by auto
  have j: "join ''='' (split_on CHR ''='' v) = v"
    using join_split_on [of "CHR ''=''" v] by simp
  show ?thesis
    using n(1) split_on_not_Nil [of "CHR ''=''" v]
    by (simp add: s t j v)
qed

lemma find_cookie_parts:
  assumes "list_all2 (\<lambda>part p. part = render_pair p \<or> part = CHR '' '' # render_pair p) parts pairs"
    and "\<forall>p\<in>set pairs. well_formed_pair p"
  shows "find_cookie parts nm = map_of pairs nm"
  using assms
proof (induction parts pairs rule: list_all2_induct)
  case Nil
  show ?case by simp
next
  case (Cons part parts p pairs)
  obtain n v where p: "p = (n, v)" by (cases p)
  from Cons.prems p have wf: "well_formed_pair (n, v)" by simp
  from Cons.hyps(1) p have part: "part = render_pair (n, v) \<or> part = CHR '' '' # render_pair (n, v)" by simp
  from Cons have IH: "find_cookie parts nm = map_of pairs nm" by simp
  show ?case unfolding p using find_cookie_step [OF wf part] IH by simp
qed

lemma render_pair_no_semicolon: "well_formed_pair p \<Longrightarrow> CHR '';'' \<notin> set (render_pair p)"
  by (auto simp: well_formed_pair_def render_pair_def)

lemma getCookieValue_well_formed:
  assumes "\<forall>p\<in>set pairs. well_formed_pair p"
  shows "getCookieValue (Some (cookie_header pairs)) nm = map_of pairs nm"
proof (cases pairs)
  case Nil
  then show ?thesis by (simp add: getCookieValue_def cookie_header_def)
next
  case (Cons p ps)
  have ne: "cookie_header pairs \<noteq> []"
    using assms unfolding Cons cookie_header_def
    by (cases ps) (auto simp: render_pair_def well_formed_pair_def)
  have "\<forall>q\<in>set (render_pair p # map render_pair ps). CHR '';'' \<notin> set q"
    using assms Cons render_pair_no_semicolon by auto
  then have sp: "split_on CHR '';'' (cookie_header pairs) =
      render_pair p # map ((#) CHR '' '') (map render_pair ps)"
    unfolding cookie_header_def Cons list.map by (rule split_join_semicolon)
  have "list_all2 (\<lambda>part p. part = render_pair p \<or> part = CHR '' '' # render_pair p)
      (render_pair p # map ((#) CHR '' '') (map render_pair ps)) (p # ps)"
    by (simp add: list_all2_map1 list_all2_same)
  from find_cookie_parts [OF this] assms Cons
  have "find_cookie (split_on CHR '';'' (cookie_header pairs)) nm = map_of pairs nm"
    using sp by simp
  with ne show ?thesis by (simp add: getCookieValue_def)
qed

lemma encode_unit_length: "1 \<le> length (encode_unit c)"
  by (simp add: encode_unit_def percent_byte_def Let_def)

lemma encode_unit_reserved_length: "\<not> uri_unreserved c \<Longrightarrow> 3 \<le> length (encode_unit c)"
  by (simp add: encode_unit_def percent_byte_def Let_def)

lemma encodeURIComponent_length: "length s \<le> length (encodeURIComponent s)"
proof (induction s)
  case Nil
  show ?case by (simp add: encodeURIComponent_def)
next
  case (Cons c cs)
  have "length (encodeURIComponent (c # cs)) = length (encode_unit c) + length (encodeURIComponent cs)"
    by (simp add: encodeURIComponent_def)
  with Cons encode_unit_length [of c] show ?case by simp
qed

lemma encodeURIComponent_fixed:
  "encodeURIComponent v = v \<Longrightarrow> \<forall>c\<in>set v. uri_unreserved c"
proof (induction v)
  case Nil
  show ?case by simp
next
  case (Cons c cs)
  have eq: "encode_unit c @ encodeURIComponent cs = c # cs"
    using Cons.prems by (simp add: encodeURIComponent_def)
  show ?case
  proof (cases "uri_unreserved c")
    case True
    then have "encode_unit c = [c]" by (simp add: encode_unit_def)
    with eq have "encodeURIComponent cs = cs" by simp
    with Cons.IH True show ?thesis by simp
  next
    case False
    from eq have "length (encode_unit c) + length (encodeURIComponent cs) = Suc (length cs)"
      by (metis length_append length_Cons)
    with encode_unit_reserved_length [OF False] encodeURIComponent_length [of cs]
    show ?thesis by simp
  qed
qed

lemma unreserved_not_ws: "uri_unreserved c \<Longrightarrow> \<not> js_whitespace c"
  by (auto simp: uri_unreserved_def js_whitespace_def Let_def)

lemma name_facts:
  "CHR ''='' \<notin> set SESSION_COOKIE_NAME" "CHR '';'' \<notin> set SESSION_COOKIE_NAME"
  "trim SESSION_COOKIE_NAME = SESSION_COOKIE_NAME" "SESSION_COOKIE_NAME \<noteq> []"
  by (simp_all add: SESSION_COOKIE_NAME_def trim_def js_whitespace_def)

lemma serialize_shape:
  "\<exists>rest. serializeSessionCookie e v =
     (SESSION_COOKIE_NAME @ CHR ''='' # encodeURIComponent v) @ CHR '';'' # rest"
  by (simp add: serializeSessionCookie_def Let_def)

subsection \<open>White space\<close>

lemma trim_rtrim: "trim s = rtrim (dropWhile js_whitespace s)"
  by (simp add: trim_def rtrim_def)

lemma rtrim_Cons:
  "rtrim (c # s) = (if rtrim s = [] \<and> js_whitespace c then [] else c # rtrim s)"
proof -
  have "dropWhile js_whitespace (rev s @ [c]) =
      (if \<forall>x\<in>set (rev s). js_whitespace x then dropWhile js_whitespace [c]
       else dropWhile js_whitespace (rev s) @ [c])"
    by (simp add: dropWhile_append)
  moreover have "(\<forall>x\<in>set (rev s). js_whitespace x) \<longleftrightarrow> rtrim s = []"
    by (simp add: rtrim_def dropWhile_eq_Nil_conv)
  ultimately show ?thesis by (simp add: rtrim_def)
qed

lemma rtrim_Nil [simp]: "rtrim [] = []"
  by (simp add: rtrim_def)

lemma replace_head_nonspace:
  "s \<noteq> [] \<Longrightarrow> \<not> js_whitespace (hd s) \<Longrightarrow>
     replace_ws_runs s \<noteq> [] \<and> hd (replace_ws_runs s) = hd s"
  by (cases s) auto

lemma dropWhile_head: "dropWhile P s \<noteq> [] \<Longrightarrow> \<not> P (hd (dropWhile P s))"
  by (metis hd_dropWhile)

lemma rtrim_nonspace_head:
  "x \<noteq> [] \<Longrightarrow> \<not> js_whitespace (hd x) \<Longrightarrow> rtrim x \<noteq> [] \<and> rtrim x = trim x"
proof -
  assume a: "x \<noteq> []" "\<not> js_whitespace (hd x)"
  then obtain c cs where x: "x = c # cs" by (cases x) auto
  with a have c: "\<not> js_whitespace c" by simp
  then have "dropWhile js_whitespace x = x" using x by simp
  then have "trim x = rtrim x" by (simp add: trim_rtrim)
  moreover have "rtrim x \<noteq> []" using x c by (simp add: rtrim_Cons)
  ultimately show ?thesis by simp
qed

lemma replace_leading:
  "trim (replace_ws_runs t) = trim (replace_ws_runs (dropWhile js_whitespace t))"
proof (cases t)
  case Nil
  then show ?thesis by simp
next
  case (Cons c cs)
  show ?thesis
  proof (cases "js_whitespace c")
    case True
    have sp: "js_whitespace CHR 0x20" by (simp add: js_whitespace_def)
    from True Cons sp show ?thesis by (simp add: trim_def)
  next
    case False
    with Cons show ?thesis by simp
  qed
qed

lemma replace_word:
  "\<forall>x\<in>set u. \<not> js_whitespace x \<Longrightarrow> replace_ws_runs (u @ v) = u @ replace_ws_runs v"
  by (induction u) auto

lemma rtrim_word:
  "u \<noteq> [] \<Longrightarrow> \<forall>x\<in>set u. \<not> js_whitespace x \<Longrightarrow> rtrim (u @ v) = u @ rtrim v"
proof (induction u)
  case Nil
  then show ?case by simp
next
  case (Cons a u)
  show ?case
  proof (cases "u = []")
    case True
    with Cons.prems show ?thesis by (simp add: rtrim_Cons)
  next
    case False
    with Cons show ?thesis by (simp add: rtrim_Cons)
  qed
qed

lemma ws_words_blank: "dropWhile js_whitespace t = [] \<Longrightarrow> ws_words t = []"
  by (subst ws_words.simps) (simp only: list.case)

lemma ws_words_word:
  "dropWhile js_whitespace t = c # cs \<Longrightarrow>
     ws_words t =
       (c # takeWhile (\<lambda>x. \<not> js_whitespace x) cs) #
       ws_words (dropWhile (\<lambda>x. \<not> js_whitespace x) cs)"
  by (subst ws_words.simps) (simp only: list.case)

text \<open>From the first character of a word on.\<close>

lemma normalize_word:
  assumes "\<not> js_whitespace c"
  shows "trim (replace_ws_runs (c # cs)) =
     (c # takeWhile (\<lambda>x. \<not> js_whitespace x) cs) @
     rtrim (replace_ws_runs (dropWhile (\<lambda>x. \<not> js_whitespace x) cs))"
proof -
  let ?w = "c # takeWhile (\<lambda>x. \<not> js_whitespace x) cs"
  let ?t = "dropWhile (\<lambda>x. \<not> js_whitespace x) cs"
  have wns: "\<forall>x\<in>set ?w. \<not> js_whitespace x"
    using assms by (auto dest: set_takeWhileD)
  have "c # cs = ?w @ ?t" by simp
  then have "replace_ws_runs (c # cs) = ?w @ replace_ws_runs ?t"
    using replace_word [OF wns, of ?t] by (simp only:)
  then have "trim (replace_ws_runs (c # cs)) = rtrim (?w @ replace_ws_runs ?t)"
    using assms by (simp add: trim_rtrim)
  also have "\<dots> = ?w @ rtrim (replace_ws_runs ?t)"
    using wns by (intro rtrim_word) simp_all
  finally show ?thesis .
qed

text \<open>After a word: nothing when only white space is left, else a space and the rest.\<close>

lemma normalize_rest:
  assumes "t = [] \<or> js_whitespace (hd t)"
  shows "rtrim (replace_ws_runs t) =
     (if dropWhile js_whitespace t = [] then []
      else CHR 0x20 # trim (replace_ws_runs t))"
proof (cases t)
  case Nil
  then show ?thesis by simp
next
  case (Cons d ds)
  with assms have d: "js_whitespace d" by simp
  let ?u = "dropWhile js_whitespace ds"
  have rept: "replace_ws_runs t = CHR 0x20 # replace_ws_runs ?u"
    using Cons d by simp
  have ut: "dropWhile js_whitespace t = ?u" using Cons d by simp
  have sp: "js_whitespace CHR 0x20" by (simp add: js_whitespace_def)
  show ?thesis
  proof (cases ?u)
    case Nil
    have "replace_ws_runs ?u = []" unfolding Nil by simp
    with rept have "rtrim (replace_ws_runs t) = []"
      using sp by (simp add: rtrim_Cons)
    moreover have "dropWhile js_whitespace t = []" using ut Nil by (simp only:)
    ultimately show ?thesis by (simp only: refl if_True)
  next
    case u: (Cons a as)
    have a: "\<not> js_whitespace a"
      using dropWhile_head [of js_whitespace ds] u by simp
    have "replace_ws_runs ?u \<noteq> [] \<and> hd (replace_ws_runs ?u) = a"
      unfolding u using a by simp
    then have r1: "rtrim (replace_ws_runs ?u) \<noteq> []"
      and r2: "rtrim (replace_ws_runs ?u) = trim (replace_ws_runs ?u)"
      using rtrim_nonspace_head [of "replace_ws_runs ?u"] a by auto
    have r3: "trim (replace_ws_runs ?u) = trim (replace_ws_runs t)"
      using replace_leading [of t] ut by (simp only:)
    have "rtrim (replace_ws_runs t) = CHR 0x20 # trim (replace_ws_runs t)"
      unfolding rept using r1 r2 r3 rept by (simp add: rtrim_Cons)
    moreover have "dropWhile js_whitespace t \<noteq> []" using ut u by (simp only:) simp
    ultimately show ?thesis by (simp only: if_False)
  qed
qed

text \<open>The normal form of a text: its words, one space between them.\<close>

lemma normalize_words: "trim (replace_ws_runs s) = join '' '' (ws_words s)"
proof (induction s rule: ws_words.induct)
  case (1 s)
  let ?nw = "\<lambda>x. \<not> js_whitespace x"
  show ?case
  proof (cases "dropWhile js_whitespace s")
    case Nil
    have "trim (replace_ws_runs (dropWhile js_whitespace s)) = []"
      unfolding Nil by (simp add: trim_def)
    then have "trim (replace_ws_runs s) = []"
      using replace_leading [of s] by (simp only:)
    moreover have "ws_words s = []" using Nil by (rule ws_words_blank)
    ultimately show ?thesis by simp
  next
    case (Cons c cs)
    have c: "\<not> js_whitespace c"
      using dropWhile_head [of js_whitespace s] Cons by simp
    let ?w = "c # takeWhile ?nw cs"
    let ?t = "dropWhile ?nw cs"
    have IH: "trim (replace_ws_runs ?t) = join '' '' (ws_words ?t)"
      using "1.IH" [OF Cons] .
    have words: "ws_words s = ?w # ws_words ?t"
      using Cons by (rule ws_words_word)
    have "trim (replace_ws_runs s) = trim (replace_ws_runs (c # cs))"
      using replace_leading [of s] Cons by (simp only:)
    then have step: "trim (replace_ws_runs s) = ?w @ rtrim (replace_ws_runs ?t)"
      using normalize_word [OF c, of cs] by (simp only:)
    have t: "?t = [] \<or> js_whitespace (hd ?t)"
      using dropWhile_head [of ?nw cs] by auto
    note rest = normalize_rest [OF t]
    show ?thesis
    proof (cases "dropWhile js_whitespace ?t = []")
      case True
      then have "ws_words ?t = []" by (rule ws_words_blank)
      moreover from rest [unfolded True] have "rtrim (replace_ws_runs ?t) = []" by simp
      ultimately show ?thesis unfolding step words by simp
    next
      case False
      then obtain a as where "dropWhile js_whitespace ?t = a # as"
        by (cases "dropWhile js_whitespace ?t") auto
      then have ne: "ws_words ?t \<noteq> []" by (simp only: ws_words_word) simp
      from False rest have "rtrim (replace_ws_runs ?t) = CHR 0x20 # trim (replace_ws_runs ?t)"
        by (simp only: if_False)
      with IH have "rtrim (replace_ws_runs ?t) = CHR 0x20 # join '' '' (ws_words ?t)"
        by (simp only:)
      with ne show ?thesis unfolding step words
        by (cases "ws_words ?t") simp_all
    qed
  qed
qed

section \<open>The handler: what each path answers\<close>

lemma json_response_ok:
  "200 \<le> st \<Longrightarrow> st \<le> 599 \<Longrightarrow> st \<noteq> 204 \<Longrightarrow> st \<noteq> 205 \<Longrightarrow> st \<noteq> 304 \<Longrightarrow>
   \<exists>hs. json_response payload st None c =
     Inr \<lparr>resp_status = st, resp_headers = hs, resp_body = payload\<rparr>"
  by (simp add: json_response_def new_Response_def Let_def)

lemma json_response_throws:
  "st < 200 \<or> 599 < st \<or> st = 204 \<or> st = 205 \<or> st = 304 \<Longrightarrow>
   \<exists>err. json_response payload st hs c = Inl err"
  by (auto simp add: json_response_def new_Response_def Let_def)

lemma catch_unexpected_Inr: "catch_unexpected c (Inr r) = Inr r"
  by (simp add: catch_unexpected_def)

lemma catch_unexpected_Inl:
  "\<exists>hs. catch_unexpected c (Inl err) =
     Inr \<lparr>resp_status = 500, resp_headers = hs, resp_body = generic_error\<rparr>"
  by (simp add: catch_unexpected_def json_response_def new_Response_def Let_def
      generic_error_def)

lemma catch_unexpected_total: "\<exists>r. catch_unexpected c x = Inr r"
  using catch_unexpected_Inl [of c] catch_unexpected_Inr [of c] by (cases x) auto

text \<open>Once a call has gone upstream, the answer is the caught outcome of the rest.\<close>

lemma POST_called:
  assumes "fst (POST e upstream req) = Some call"
  shows "snd (POST e upstream req) =
           catch_unexpected (snd (resolveUserId e req))
             (after_fetch (upstream call) (snd (resolveUserId e req)))"
    and "call = upstream_request e (safeParseJson req) (fst (resolveUserId e req))
                  (resolveWorkflowId e (safeParseJson req))"
    and "truthy_string (OPENAI_API_KEY e)"
  using assms
  by (auto simp: POST_def Let_def split: if_splits prod.splits)

text \<open>The whole table of answers after \<^verbatim>\<open>fetch\<close> has settled.\<close>

lemma after_fetch_caught:
  "\<exists>r. catch_unexpected c (after_fetch fetched c) = Inr r \<and>
     (case fetched of
        FetchRejected \<Rightarrow> resp_status r = 500 \<and> resp_body r = generic_error
      | Upstream st statusText parsed \<Rightarrow>
          if response_ok st then
            resp_status r = 200 \<and>
            resp_body r = session_payload (case parsed of Some j \<Rightarrow> j | None \<Rightarrow> JObj [])
          else if 200 \<le> st \<and> st \<le> 599 \<and> st \<noteq> 304 then
            resp_status r = st \<and>
            resp_body r =
              upstream_error_payload st statusText
                (case parsed of Some j \<Rightarrow> j | None \<Rightarrow> JObj [])
          else resp_status r = 500 \<and> resp_body r = generic_error)"
proof (cases fetched)
  case FetchRejected
  then show ?thesis
    using catch_unexpected_Inl [of c NetworkError] by (auto simp: after_fetch_def)
next
  case (Upstream st statusText parsed)
  let ?j = "case parsed of Some j \<Rightarrow> j | None \<Rightarrow> JObj []"
  show ?thesis
  proof (cases "response_ok st")
    case True
    obtain hs where "json_response (session_payload ?j) 200 None c =
        Inr \<lparr>resp_status = 200, resp_headers = hs, resp_body = session_payload ?j\<rparr>"
      using json_response_ok [of 200 "session_payload ?j" c] by auto
    with True Upstream show ?thesis
      by (simp add: after_fetch_def catch_unexpected_Inr)
  next
    case False
    show ?thesis
    proof (cases "200 \<le> st \<and> st \<le> 599 \<and> st \<noteq> 304")
      case True
      with False have "st \<noteq> 204" "st \<noteq> 205" by (auto simp: response_ok_def)
      with True obtain hs where
        "json_response (upstream_error_payload st statusText ?j) st None c =
           Inr \<lparr>resp_status = st, resp_headers = hs,
                resp_body = upstream_error_payload st statusText ?j\<rparr>"
        using json_response_ok [of st "upstream_error_payload st statusText ?j" c] by auto
      with True False Upstream show ?thesis
        by (simp add: after_fetch_def catch_unexpected_Inr)
    next
      case bad: False
      then obtain err where
        "json_response (upstream_error_payload st statusText ?j) st None c = Inl err"
        using json_response_throws [of st "upstream_error_payload st statusText ?j" None c]
        by auto
      with bad False Upstream show ?thesis
        using catch_unexpected_Inl [of c err] by (auto simp: after_fetch_def)
    qed
  qed
qed

lemma session_payload_fields:
  "session_payload j =
     JObj [(''client_secret'', field_or_null j ''client_secret''),
           (''expires_after'', field_or_null j ''expires_after'')]"
proof -
  have "nullish (opt_chain (Some j) k) JNull = field_or_null j k" for k
  proof (cases j)
    case (JObj kvs)
    show ?thesis
    proof (cases "map_of kvs k")
      case None
      with JObj show ?thesis by (simp add: field_or_null_def)
    next
      case (Some v)
      with JObj show ?thesis by (cases v) (simp_all add: field_or_null_def)
    qed
  qed (simp_all add: field_or_null_def)
  then show ?thesis by (simp add: session_payload_def)
qed

text \<open>The cookie that a response built by \<^verbatim>\<open>json\<close> carries.\<close>

lemma set_cookie_json_response:
  "json_response payload st None c = Inr r \<Longrightarrow>
     set_cookie r = (case c of Some (x # xs) \<Rightarrow> Some (x # xs) | _ \<Rightarrow> None)"
  by (auto simp: json_response_def new_Response_def Let_def set_cookie_def
      split: if_splits option.splits list.splits)

lemma set_cookie_caught:
  assumes "catch_unexpected c x = Inr r"
    and "(\<exists>err. x = Inl err) \<or> (\<exists>payload st. x = json_response payload st None c)"
  shows "set_cookie r = (case c of Some (x # xs) \<Rightarrow> Some (x # xs) | _ \<Rightarrow> None)"
proof (cases x)
  case (Inl err)
  with assms(1) show ?thesis
    by (simp add: catch_unexpected_def set_cookie_json_response)
next
  case (Inr r')
  with assms(1) have "r' = r" by (simp add: catch_unexpected_def)
  with Inr assms(2) show ?thesis by (auto simp: set_cookie_json_response dest: sym)
qed

lemma after_fetch_form:
  "(\<exists>err. after_fetch fetched c = Inl err) \<or>
   (\<exists>payload st. after_fetch fetched c = json_response payload st None c)"
  by (cases fetched) (auto simp: after_fetch_def Let_def)

lemma POST_with_key:
  assumes "truthy_string (OPENAI_API_KEY e)"
  shows "\<exists>x. snd (POST e upstream req) = catch_unexpected (snd (resolveUserId e req)) x \<and>
           ((\<exists>err. x = Inl err) \<or>
            (\<exists>payload st. x = json_response payload st None (snd (resolveUserId e req))))"
proof (cases "truthy (resolveWorkflowId e (safeParseJson req))")
  case True
  obtain u c where rc: "resolveUserId e req = (u, c)" by (cases "resolveUserId e req")
  let ?x = "after_fetch (upstream (upstream_request e (safeParseJson req) u
                (resolveWorkflowId e (safeParseJson req)))) c"
  from True assms rc have "snd (POST e upstream req) = catch_unexpected c ?x"
    by (simp add: POST_def Let_def)
  moreover have "(\<exists>err. ?x = Inl err) \<or> (\<exists>payload st. ?x = json_response payload st None c)"
    by (rule after_fetch_form)
  ultimately show ?thesis unfolding rc snd_conv by (intro exI [of _ ?x] conjI)
next
  case False
  with assms show ?thesis
    by (auto simp add: POST_def Let_def split: prod.splits)
qed

lemma POST_sent_user:
  "fst (POST e upstream req) = Some call \<Longrightarrow>
     sent_user call = Some (JStr (fst (resolveUserId e req)))"
  using POST_called(2) [of e upstream req call]
  by (simp add: sent_user_def upstream_request_def Let_def)

lemma serializeSessionCookie_not_empty: "serializeSessionCookie e v \<noteq> []"
  using serialize_shape [of e v] by auto

lemma resolveUserId_cases:
  "resolveUserId e req =
     (case getCookieValue (req_cookie req) SESSION_COOKIE_NAME of
        Some (c # cs) \<Rightarrow> (c # cs, None)
      | _ \<Rightarrow> (generated e, Some (serializeSessionCookie e (generated e))))"
  by (simp add: resolveUserId_def Let_def split: option.splits list.splits)

text \<open>On the cookies a request carries, \<^verbatim>\<open>getCookieValue\<close> finds the first of the name.\<close>

lemma getCookieValue_carried:
  assumes "carries_cookies req pairs"
  shows "getCookieValue (req_cookie req) nm = map_of pairs nm"
proof (cases "req_cookie req")
  case None
  with assms show ?thesis by (auto simp: carries_cookies_def getCookieValue_def)
next
  case (Some h)
  with assms have "h = cookie_header pairs" and "\<forall>p\<in>set pairs. well_formed_pair p"
    by (auto simp: carries_cookies_def list_all_iff)
  with Some show ?thesis by (simp add: getCookieValue_well_formed)
qed

text \<open>On every header, \<^verbatim>\<open>getCookieValue\<close> reads the cookie that the header presents.\<close>

lemma split_on_takeWhile:
  "split_on d s = takeWhile (\<lambda>c. c \<noteq> d) s #
     (if d \<in> set s then split_on d (tl (dropWhile (\<lambda>c. c \<noteq> d) s)) else [])"
proof (cases "d \<in> set s")
  case False
  then have tw: "takeWhile (\<lambda>c. c \<noteq> d) s = s" by (induction s) auto
  from False show ?thesis unfolding tw by (simp add: split_on_absent)
next
  case True
  then have dw: "dropWhile (\<lambda>c. c \<noteq> d) s = d # tl (dropWhile (\<lambda>c. c \<noteq> d) s)"
    by (induction s) auto
  have "d \<notin> set (takeWhile (\<lambda>c. c \<noteq> d) s)" by (induction s) auto
  then have "split_on d (takeWhile (\<lambda>c. c \<noteq> d) s @ d # tl (dropWhile (\<lambda>c. c \<noteq> d) s)) =
      takeWhile (\<lambda>c. c \<noteq> d) s # split_on d (tl (dropWhile (\<lambda>c. c \<noteq> d) s))"
    by (rule split_on_first)
  moreover have "takeWhile (\<lambda>c. c \<noteq> d) s @ d # tl (dropWhile (\<lambda>c. c \<noteq> d) s) = s"
    using dw takeWhile_dropWhile_id [of "\<lambda>c. c \<noteq> d" s] by simp
  ultimately show ?thesis using True by simp
qed

lemma find_cookie_Cons:
  "find_cookie (part # parts) nm =
     (if names_cookie nm part then Some (trim (tl (dropWhile (\<lambda>c. c \<noteq> CHR ''='') part)))
      else find_cookie parts nm)"
proof -
  have j: "join ''='' (split_on CHR ''='' x) = x" for x
    using join_split_on [of "CHR ''=''" x] by simp
  show ?thesis
    using split_on_not_Nil [of "CHR ''=''" "tl (dropWhile (\<lambda>c. c \<noteq> CHR ''='') part)"]
    unfolding find_cookie.simps split_on_takeWhile [of "CHR ''=''" part]
    by (simp add: names_cookie_def j)
qed

lemma find_cookie_filter:
  "find_cookie parts nm =
     (case filter (names_cookie nm) parts of
        [] \<Rightarrow> None
      | part # _ \<Rightarrow> Some (trim (tl (dropWhile (\<lambda>c. c \<noteq> CHR ''='') part))))"
proof (induction parts)
  case Nil
  show ?case by simp
next
  case (Cons part parts)
  then show ?case unfolding find_cookie_Cons by simp
qed

lemma getCookieValue_request_cookie:
  "getCookieValue (req_cookie req) nm = request_cookie req nm"
proof (cases "req_cookie req")
  case None
  then show ?thesis by (simp add: getCookieValue_def request_cookie_def)
next
  case (Some h)
  show ?thesis
  proof (cases "h = []")
    case True
    with Some show ?thesis
      by (simp add: getCookieValue_def request_cookie_def cookie_value_def names_cookie_def)
  next
    case False
    with Some show ?thesis
      by (simp add: getCookieValue_def request_cookie_def cookie_value_def find_cookie_filter)
  qed
qed

subsection \<open>The sample requests, evaluated\<close>

lemma sample_serialized: "serializeSessionCookie sample_env ''ab-1'' = sample_cookie"
  by (simp add: serializeSessionCookie_def SESSION_COOKIE_NAME_def SESSION_COOKIE_MAX_AGE_def
      show_nat.simps encodeURIComponent_def encode_unit_def uri_unreserved_def sample_env_def
      sample_cookie_def)

lemma sample_resolveUserId:
  "resolveUserId sample_env sample_request = (''ab-1'', Some sample_cookie)"
  using sample_serialized
  by (simp add: resolveUserId_def getCookieValue_def sample_request_def sample_env_def)

lemma empty_cookie_resolveUserId:
  "resolveUserId sample_env empty_cookie_request = (''ab-1'', Some sample_cookie)"
  using sample_serialized
  by (simp add: resolveUserId_def getCookieValue_def empty_cookie_request_def sample_env_def
      SESSION_COOKIE_NAME_def trim_def js_whitespace_def)

lemma returning_resolveUserId:
  "resolveUserId sample_env returning_request = (''v-7'', None)"
  by (simp add: resolveUserId_def getCookieValue_def returning_request_def
      SESSION_COOKIE_NAME_def trim_def js_whitespace_def)

lemma sample_POST:
  "POST sample_env upstream sample_request =
     (Some (sample_call ''ab-1''),
      catch_unexpected (Some sample_cookie)
        (after_fetch (upstream (sample_call ''ab-1'')) (Some sample_cookie)))"
  unfolding POST_def sample_resolveUserId
  by (simp add: sample_env_def sample_request_def safeParseJson_def resolveWorkflowId_def
      upstream_request_def DEFAULT_CHATKIT_BASE_def sample_call_def Let_def)

lemma empty_cookie_POST:
  "POST sample_env upstream empty_cookie_request =
     (Some (sample_call ''ab-1''),
      catch_unexpected (Some sample_cookie)
        (after_fetch (upstream (sample_call ''ab-1'')) (Some sample_cookie)))"
  unfolding POST_def empty_cookie_resolveUserId
  by (simp add: sample_env_def empty_cookie_request_def safeParseJson_def resolveWorkflowId_def
      upstream_request_def DEFAULT_CHATKIT_BASE_def sample_call_def Let_def)

lemma returning_POST:
  "POST sample_env upstream returning_request =
     (Some (sample_call ''v-7''),
      catch_unexpected None (after_fetch (upstream (sample_call ''v-7'')) None))"
  unfolding POST_def returning_resolveUserId
  by (simp add: sample_env_def returning_request_def safeParseJson_def resolveWorkflowId_def
      upstream_request_def DEFAULT_CHATKIT_BASE_def sample_call_def Let_def)

lemma compact_resolveUserId:
  "resolveUserId sample_env compact_request = (''v-7'', None)"
  by (simp add: resolveUserId_def getCookieValue_def compact_request_def
      SESSION_COOKIE_NAME_def trim_def js_whitespace_def)

lemma compact_POST:
  "POST sample_env upstream compact_request =
     (Some (sample_call ''v-7''),
      catch_unexpected None (after_fetch (upstream (sample_call ''v-7'')) None))"
  unfolding POST_def compact_resolveUserId
  by (simp add: sample_env_def compact_request_def safeParseJson_def resolveWorkflowId_def
      upstream_request_def DEFAULT_CHATKIT_BASE_def sample_call_def Let_def)

lemma show_nat_404: "show_nat 404 = ''404''"
  by (simp add: show_nat.simps)

lemma sample_404:
  "catch_unexpected c (after_fetch (upstream_404 call) c) =
     Inr \<lparr>resp_status = 404,
          resp_headers =
            (case c of
               Some (x # xs) \<Rightarrow>
                 [(''Content-Type'', ''application/json''), (''Set-Cookie'', x # xs)]
             | _ \<Rightarrow> [(''Content-Type'', ''application/json'')]),
          resp_body =
            JObj [(''error'', JStr ''Failed to create session: 404 Not Found''),
                  (''details'', JObj [])]\<rparr>"
  by (simp add: upstream_404_def after_fetch_def response_ok_def json_response_def
      new_Response_def upstream_error_payload_def extractUpstreamError_def
      catch_unexpected_def show_nat_404 split: option.splits list.splits)

section \<open>Claims about the session route\<close>

text \<open>
  Claim C1, as the code has it. Once the handler has called the provider: a status
  outside 200 to 299 that a response with a body can carry (300 to 599 other than 304)
  is the status of the endpoint's response, whose body is the upstream-error payload;
  any other status outside 200 to 299 makes the \<^verbatim>\<open>Response\<close> constructor throw, and
  a rejected \<^verbatim>\<open>fetch\<close> throws as well, and then the endpoint answers 500 with the
  generic body. An upstream body that is not JSON is no failure: it is read as the empty
  object, so the answer is the upstream-error response, or 200 with the session payload
  of the empty object.
\<close>

theorem POST_status_after_upstream:
  assumes "fst (POST e upstream req) = Some call"
  shows "\<exists>r. snd (POST e upstream req) = Inr r \<and>
     (case upstream call of
        FetchRejected \<Rightarrow> resp_status r = 500 \<and> resp_body r = generic_error
      | Upstream st statusText parsed \<Rightarrow>
          if response_ok st then
            resp_status r = 200 \<and>
            resp_body r = session_payload (case parsed of Some j \<Rightarrow> j | None \<Rightarrow> JObj [])
          else if 200 \<le> st \<and> st \<le> 599 \<and> st \<noteq> 304 then
            resp_status r = st \<and>
            resp_body r =
              upstream_error_payload st statusText
                (case parsed of Some j \<Rightarrow> j | None \<Rightarrow> JObj [])
          else resp_status r = 500 \<and> resp_body r = generic_error)"
  unfolding POST_called(1) [OF assms] by (rule after_fetch_caught)

text \<open>The theorem at the first visit of a browser, with a provider that answers 404.\<close>

theorem POST_status_after_upstream_witness:
  "fst (POST sample_env upstream_404 sample_request) = Some (sample_call ''ab-1'') \<and>
   (\<exists>r. snd (POST sample_env upstream_404 sample_request) = Inr r \<and>
        resp_status r = 404 \<and>
        resp_body r = upstream_error_payload 404 ''Not Found'' (JObj []))"
proof -
  have call: "fst (POST sample_env upstream_404 sample_request) = Some (sample_call ''ab-1'')"
    by (simp add: sample_POST)
  from POST_status_after_upstream [OF call] call show ?thesis
    by (simp add: upstream_404_def response_ok_def)
qed

text \<open>
  Claim C1 as stated fails twice. A provider that answers 200 with a body that is not
  JSON gets the answer 200 with both fields null, not the generic 500. A provider that
  answers 304 gets the generic 500, not 304.
\<close>

theorem POST_status_counterexample:
  "snd (POST sample_env upstream_unparsable sample_request) =
     Inr \<lparr>resp_status = 200,
          resp_headers = [(''Content-Type'', ''application/json''), (''Set-Cookie'', sample_cookie)],
          resp_body = JObj [(''client_secret'', JNull), (''expires_after'', JNull)]\<rparr> \<and>
   snd (POST sample_env upstream_304 sample_request) =
     Inr \<lparr>resp_status = 500,
          resp_headers = [(''Content-Type'', ''application/json''), (''Set-Cookie'', sample_cookie)],
          resp_body = JObj [(''error'', JStr ''Unexpected error while creating session'')]\<rparr>"
  by (simp add: sample_POST upstream_unparsable_def upstream_304_def after_fetch_def
      response_ok_def json_response_def new_Response_def session_payload_def
      catch_unexpected_def sample_cookie_def)

text \<open>
  Claim C2, as the code has it. For every POST request handled with \<open>OPENAI_API_KEY\<close>
  set, whatever its Cookie header is, take the cookie that the header presents under
  the name \<open>chatkit_session_id\<close>. When its value is a string that is not empty, every
  body sent upstream has it as its \<open>user\<close> and the response has no \<open>Set-Cookie\<close>
  header. Otherwise (no such cookie, or an empty value) every body sent upstream has the
  generated id as its \<open>user\<close>, and the response, whichever it is (400, upstream error,
  200 or the generic 500), sets the cookie serialized from that id. On a request that
  carries well-formed cookies as a browser writes them, the cookie presented is the
  first cookie named \<open>chatkit_session_id\<close>.
\<close>

theorem sticky_visitor_id:
  assumes "truthy_string (OPENAI_API_KEY e)"
  shows "(\<exists>r. snd (POST e upstream req) = Inr r \<and>
       (case request_cookie req SESSION_COOKIE_NAME of
          Some (c # cs) \<Rightarrow>
            (\<forall>call. fst (POST e upstream req) = Some call \<longrightarrow>
               sent_user call = Some (JStr (c # cs))) \<and>
            set_cookie r = None
        | _ \<Rightarrow>
            (\<forall>call. fst (POST e upstream req) = Some call \<longrightarrow>
               sent_user call = Some (JStr (generated e))) \<and>
            set_cookie r = Some (serializeSessionCookie e (generated e)))) \<and>
     (carries_cookies req pairs \<longrightarrow>
        request_cookie req SESSION_COOKIE_NAME = map_of pairs SESSION_COOKIE_NAME)"
proof
  let ?c = "snd (resolveUserId e req)"
  obtain x where x: "snd (POST e upstream req) = catch_unexpected ?c x"
    and form: "(\<exists>err. x = Inl err) \<or> (\<exists>payload st. x = json_response payload st None ?c)"
    using POST_with_key [OF assms] by blast
  obtain r where r: "catch_unexpected ?c x = Inr r"
    using catch_unexpected_total by blast
  have sc: "set_cookie r = (case ?c of Some (x # xs) \<Rightarrow> Some (x # xs) | _ \<Rightarrow> None)"
    using set_cookie_caught [OF r form] .
  have user: "\<forall>call. fst (POST e upstream req) = Some call \<longrightarrow>
      sent_user call = Some (JStr (fst (resolveUserId e req)))"
    using POST_sent_user by blast
  show "\<exists>r. snd (POST e upstream req) = Inr r \<and>
       (case request_cookie req SESSION_COOKIE_NAME of
          Some (c # cs) \<Rightarrow>
            (\<forall>call. fst (POST e upstream req) = Some call \<longrightarrow>
               sent_user call = Some (JStr (c # cs))) \<and>
            set_cookie r = None
        | _ \<Rightarrow>
            (\<forall>call. fst (POST e upstream req) = Some call \<longrightarrow>
               sent_user call = Some (JStr (generated e))) \<and>
            set_cookie r = Some (serializeSessionCookie e (generated e)))"
    using x r sc user serializeSessionCookie_not_empty [of e "generated e"]
    unfolding resolveUserId_cases [of e req] getCookieValue_request_cookie
    by (auto split: option.splits list.splits)
next
  show "carries_cookies req pairs \<longrightarrow>
        request_cookie req SESSION_COOKIE_NAME = map_of pairs SESSION_COOKIE_NAME"
    using getCookieValue_carried [of req pairs SESSION_COOKIE_NAME]
    by (simp add: getCookieValue_request_cookie)
qed

text \<open>
  The theorem at a returning visitor whose cookie is \<open>v-7\<close>, once with the header a
  browser writes and once with a header that has no space after the semicolon.
\<close>

theorem sticky_visitor_id_witness:
  "truthy_string (OPENAI_API_KEY sample_env) \<and>
   carries_cookies returning_request returning_cookies \<and>
   map_of returning_cookies SESSION_COOKIE_NAME = Some ''v-7'' \<and>
   request_cookie returning_request SESSION_COOKIE_NAME = Some ''v-7'' \<and>
   fst (POST sample_env upstream_404 returning_request) = Some (sample_call ''v-7'') \<and>
   sent_user (sample_call ''v-7'') = Some (JStr ''v-7'') \<and>
   (\<exists>r. snd (POST sample_env upstream_404 returning_request) = Inr r \<and> set_cookie r = None) \<and>
   request_cookie compact_request SESSION_COOKIE_NAME = Some ''v-7'' \<and>
   fst (POST sample_env upstream_404 compact_request) = Some (sample_call ''v-7'') \<and>
   (\<exists>r. snd (POST sample_env upstream_404 compact_request) = Inr r \<and> set_cookie r = None)"
proof -
  have key: "truthy_string (OPENAI_API_KEY sample_env)"
    by (simp add: sample_env_def)
  have cookies: "carries_cookies returning_request returning_cookies"
    by (simp add: carries_cookies_def returning_request_def returning_cookies_def
        well_formed_pair_def cookie_header_def render_pair_def trim_def js_whitespace_def)
  have v: "map_of returning_cookies SESSION_COOKIE_NAME = Some ''v-7''"
    by (simp add: returning_cookies_def SESSION_COOKIE_NAME_def)
  have call: "fst (POST sample_env upstream_404 returning_request) = Some (sample_call ''v-7'')"
    by (simp add: returning_POST)
  have "getCookieValue (req_cookie compact_request) SESSION_COOKIE_NAME = Some ''v-7''"
    by (simp add: getCookieValue_def compact_request_def SESSION_COOKIE_NAME_def trim_def
        js_whitespace_def)
  then have compact: "request_cookie compact_request SESSION_COOKIE_NAME = Some ''v-7''"
    by (simp add: getCookieValue_request_cookie)
  have call': "fst (POST sample_env upstream_404 compact_request) = Some (sample_call ''v-7'')"
    by (simp add: compact_POST)
  from sticky_visitor_id [OF key, of upstream_404 returning_request returning_cookies]
    cookies v call
  have one: "request_cookie returning_request SESSION_COOKIE_NAME = Some ''v-7''"
    and two: "sent_user (sample_call ''v-7'') = Some (JStr ''v-7'')"
    and three: "\<exists>r. snd (POST sample_env upstream_404 returning_request) = Inr r \<and>
      set_cookie r = None"
    by auto
  from sticky_visitor_id [OF key, of upstream_404 compact_request "[]"] compact
  have four: "\<exists>r. snd (POST sample_env upstream_404 compact_request) = Inr r \<and>
      set_cookie r = None"
    by auto
  from key cookies v one call two three compact call' four show ?thesis by blast
qed

text \<open>
  Claim C2 as stated fails twice. Without \<open>OPENAI_API_KEY\<close> a first visit is answered
  500 with no \<open>Set-Cookie\<close> header, and no id is generated. A request that carries the
  cookie with an empty value is treated as a first visit: the generated id goes
  upstream and the response sets the cookie.
\<close>

theorem sticky_visitor_id_counterexample:
  "carries_cookies sample_request [] \<and>
   POST sample_env_no_key upstream_404 sample_request =
     (None,
      Inr \<lparr>resp_status = 500,
           resp_headers = [(''Content-Type'', ''application/json'')],
           resp_body =
             JObj [(''error'', JStr ''Missing OPENAI_API_KEY environment variable''),
                   (''hint'',
                    JStr ''Set it in Vercel - Project - Settings - Environment Variables'')]\<rparr>) \<and>
   carries_cookies empty_cookie_request [(''chatkit_session_id'', [])] \<and>
   POST sample_env upstream_404 empty_cookie_request =
     (Some (sample_call ''ab-1''),
      Inr \<lparr>resp_status = 404,
           resp_headers =
             [(''Content-Type'', ''application/json''), (''Set-Cookie'', sample_cookie)],
           resp_body =
             JObj [(''error'', JStr ''Failed to create session: 404 Not Found''),
                   (''details'', JObj [])]\<rparr>)"
proof -
  have "carries_cookies sample_request []"
    by (simp add: carries_cookies_def sample_request_def)
  moreover have "POST sample_env_no_key upstream_404 sample_request =
     (None,
      Inr \<lparr>resp_status = 500,
           resp_headers = [(''Content-Type'', ''application/json'')],
           resp_body =
             JObj [(''error'', JStr ''Missing OPENAI_API_KEY environment variable''),
                   (''hint'',
                    JStr ''Set it in Vercel - Project - Settings - Environment Variables'')]\<rparr>)"
    by (simp add: POST_def sample_env_no_key_def sample_env_def json_response_def
        new_Response_def catch_unexpected_def)
  moreover have "carries_cookies empty_cookie_request [(''chatkit_session_id'', [])]"
    by (simp add: carries_cookies_def empty_cookie_request_def well_formed_pair_def
        cookie_header_def render_pair_def trim_def js_whitespace_def)
  moreover have "POST sample_env upstream_404 empty_cookie_request =
     (Some (sample_call ''ab-1''),
      Inr \<lparr>resp_status = 404,
           resp_headers =
             [(''Content-Type'', ''application/json''), (''Set-Cookie'', sample_cookie)],
           resp_body =
             JObj [(''error'', JStr ''Failed to create session: 404 Not Found''),
                   (''details'', JObj [])]\<rparr>)"
    by (simp add: empty_cookie_POST sample_404 sample_cookie_def)
  ultimately show ?thesis by blast
qed

text \<open>
  Claim C3, as the code has it. \<^verbatim>\<open>extractUpstreamError\<close> returns the first string
  among the six shapes, in the order \<open>error\<close>, \<open>error.message\<close>, \<open>details\<close>,
  \<open>details.error\<close>, \<open>details.error.message\<close>, \<open>message\<close>, and null when there is
  none. When there is none, the \<open>error\<close> field of the upstream-error payload is the text
  \<open>Failed to create session:\<close> with the status and the status text; and when the
  upstream status is one a response with a body can carry (300 to 599 other than 304),
  the endpoint answers with that status and that text as its \<open>error\<close> field.
\<close>

theorem extractUpstreamError_order:
  "extractUpstreamError p = first_string (error_shapes p) \<and>
   (first_string (error_shapes p) = None \<longrightarrow>
      get_prop (upstream_error_payload st statusText p) ''error'' =
        Some (JStr (''Failed to create session: '' @ show_nat st @ '' '' @ statusText))) \<and>
   (fst (POST e upstream req) = Some call \<longrightarrow>
    upstream call = Upstream st statusText (Some p) \<longrightarrow>
    \<not> response_ok st \<longrightarrow> 200 \<le> st \<longrightarrow> st \<le> 599 \<longrightarrow> st \<noteq> 304 \<longrightarrow>
    first_string (error_shapes p) = None \<longrightarrow>
    (\<exists>r. snd (POST e upstream req) = Inr r \<and> resp_status r = st \<and>
       get_prop (resp_body r) ''error'' =
         Some (JStr (''Failed to create session: '' @ show_nat st @ '' '' @ statusText))))"
proof (intro conjI impI)
  show "extractUpstreamError p = first_string (error_shapes p)"
    by (rule extractUpstreamError_first_string)
next
  assume "first_string (error_shapes p) = None"
  then show "get_prop (upstream_error_payload st statusText p) ''error'' =
        Some (JStr (''Failed to create session: '' @ show_nat st @ '' '' @ statusText))"
    by (simp add: upstream_error_payload_def extractUpstreamError_first_string)
next
  assume call: "fst (POST e upstream req) = Some call"
    and up: "upstream call = Upstream st statusText (Some p)"
    and nok: "\<not> response_ok st"
    and range: "200 \<le> st" "st \<le> 599" "st \<noteq> 304"
    and none: "first_string (error_shapes p) = None"
  from after_fetch_caught [of "snd (resolveUserId e req)" "upstream call"] up nok range
  obtain r where r: "snd (POST e upstream req) = Inr r"
    and st: "resp_status r = st"
    and body: "resp_body r = upstream_error_payload st statusText p"
    unfolding POST_called(1) [OF call] by auto
  from body none have "get_prop (resp_body r) ''error'' =
         Some (JStr (''Failed to create session: '' @ show_nat st @ '' '' @ statusText))"
    by (simp add: upstream_error_payload_def extractUpstreamError_first_string)
  with r st show "\<exists>r. snd (POST e upstream req) = Inr r \<and> resp_status r = st \<and>
       get_prop (resp_body r) ''error'' =
         Some (JStr (''Failed to create session: '' @ show_nat st @ '' '' @ statusText))"
    by blast
qed

text \<open>
  The theorem at a payload with three shapes at once, where \<open>error.message\<close> wins, and
  at the empty object sent with status 404, where the fallback text is the message.
\<close>

theorem extractUpstreamError_order_witness:
  "extractUpstreamError crowded_payload = Some ''bad key'' \<and>
   first_string (error_shapes (JObj [])) = None \<and>
   get_prop (upstream_error_payload 404 ''Not Found'' (JObj [])) ''error'' =
     Some (JStr ''Failed to create session: 404 Not Found'') \<and>
   fst (POST sample_env upstream_404 sample_request) = Some (sample_call ''ab-1'') \<and>
   upstream_404 (sample_call ''ab-1'') = Upstream 404 ''Not Found'' (Some (JObj [])) \<and>
   \<not> response_ok 404 \<and>
   (\<exists>r. snd (POST sample_env upstream_404 sample_request) = Inr r \<and> resp_status r = 404 \<and>
        get_prop (resp_body r) ''error'' =
          Some (JStr ''Failed to create session: 404 Not Found''))"
proof -
  have crowded: "first_string (error_shapes crowded_payload) = Some ''bad key''"
    by (simp add: crowded_payload_def error_shapes_def string_field_def object_field_def)
  have none: "first_string (error_shapes (JObj [])) = None"
    by (simp add: error_shapes_def string_field_def object_field_def)
  have call: "fst (POST sample_env upstream_404 sample_request) = Some (sample_call ''ab-1'')"
    by (simp add: sample_POST)
  have up: "upstream_404 (sample_call ''ab-1'') = Upstream 404 ''Not Found'' (Some (JObj []))"
    by (simp add: upstream_404_def)
  have nok: "\<not> response_ok 404" by (simp add: response_ok_def)
  from extractUpstreamError_order [of crowded_payload 404 "''Not Found''" sample_env
      upstream_404 sample_request "sample_call ''ab-1''"] crowded
  have one: "extractUpstreamError crowded_payload = Some ''bad key''" by simp
  from extractUpstreamError_order [of "JObj []" 404 "''Not Found''" sample_env
      upstream_404 sample_request "sample_call ''ab-1''"] none call up nok
  have two: "get_prop (upstream_error_payload 404 ''Not Found'' (JObj [])) ''error'' =
        Some (JStr ''Failed to create session: 404 Not Found'')"
    and three: "\<exists>r. snd (POST sample_env upstream_404 sample_request) = Inr r \<and>
        resp_status r = 404 \<and>
        get_prop (resp_body r) ''error'' =
          Some (JStr ''Failed to create session: 404 Not Found'')"
    by (simp_all add: show_nat_404)
  from one none two call up nok three show ?thesis by blast
qed

text \<open>
  Claim C3 as stated fails in its last clause. A provider answers 304 with the empty
  object: no shape yields a string, yet the \<open>error\<close> field of the endpoint's response
  is not the fallback text, because the response with status 304 cannot be built and the
  handler answers the generic 500.
\<close>

theorem fallback_text_counterexample:
  "extractUpstreamError (JObj []) = None \<and>
   first_string (error_shapes (JObj [])) = None \<and>
   fst (POST sample_env upstream_304 sample_request) = Some (sample_call ''ab-1'') \<and>
   upstream_304 (sample_call ''ab-1'') = Upstream 304 ''Not Modified'' (Some (JObj [])) \<and>
   snd (POST sample_env upstream_304 sample_request) =
     Inr \<lparr>resp_status = 500,
          resp_headers = [(''Content-Type'', ''application/json''), (''Set-Cookie'', sample_cookie)],
          resp_body = JObj [(''error'', JStr ''Unexpected error while creating session'')]\<rparr>"
  by (simp add: sample_POST upstream_304_def after_fetch_def response_ok_def
      json_response_def new_Response_def catch_unexpected_def extractUpstreamError_def
      error_shapes_def string_field_def object_field_def sample_cookie_def)

text \<open>
  Claim C4. When the provider answers with a status from 200 to 299, the endpoint
  answers 200 with a JSON object of exactly two fields, \<open>client_secret\<close> and
  \<open>expires_after\<close>, each the field of that name of the upstream JSON, or null when the
  upstream JSON has none. No other upstream field is in the body.
\<close>

theorem session_response_fields:
  assumes "fst (POST e upstream req) = Some call"
    and "upstream call = Upstream st statusText parsed"
    and "response_ok st"
  shows "\<exists>hs. snd (POST e upstream req) =
     Inr \<lparr>resp_status = 200, resp_headers = hs,
          resp_body =
            JObj [(''client_secret'',
                     field_or_null (case parsed of Some j \<Rightarrow> j | None \<Rightarrow> JObj [])
                       ''client_secret''),
                  (''expires_after'',
                     field_or_null (case parsed of Some j \<Rightarrow> j | None \<Rightarrow> JObj [])
                       ''expires_after'')]\<rparr>"
proof -
  let ?c = "snd (resolveUserId e req)"
  let ?j = "case parsed of Some j \<Rightarrow> j | None \<Rightarrow> JObj []"
  obtain hs where "json_response (session_payload ?j) 200 None ?c =
      Inr \<lparr>resp_status = 200, resp_headers = hs, resp_body = session_payload ?j\<rparr>"
    using json_response_ok [of 200 "session_payload ?j" ?c] by auto
  then show ?thesis
    unfolding POST_called(1) [OF assms(1)] assms(2) using assms(3)
    by (simp add: after_fetch_def Let_def catch_unexpected_Inr session_payload_fields)
qed

text \<open>
  The theorem at a provider whose answer has \<open>id\<close>, \<open>client_secret\<close> and \<open>status\<close>:
  the secret is copied, \<open>expires_after\<close> is null, \<open>id\<close> and \<open>status\<close> are dropped.
\<close>

theorem session_response_fields_witness:
  "fst (POST sample_env upstream_session sample_request) = Some (sample_call ''ab-1'') \<and>
   response_ok 200 \<and>
   (\<exists>hs. snd (POST sample_env upstream_session sample_request) =
      Inr \<lparr>resp_status = 200, resp_headers = hs,
           resp_body = JObj [(''client_secret'', JStr ''cs_1''), (''expires_after'', JNull)]\<rparr>)"
proof -
  have call: "fst (POST sample_env upstream_session sample_request) = Some (sample_call ''ab-1'')"
    by (simp add: sample_POST)
  have ok: "response_ok 200" by (simp add: response_ok_def)
  from session_response_fields [OF call _ ok, of "''OK''"
      "Some (JObj [(''id'', JStr ''cksess_1''), (''client_secret'', JStr ''cs_1''),
                   (''status'', JStr ''active'')])"]
  have "\<exists>hs. snd (POST sample_env upstream_session sample_request) =
      Inr \<lparr>resp_status = 200, resp_headers = hs,
           resp_body = JObj [(''client_secret'', JStr ''cs_1''), (''expires_after'', JNull)]\<rparr>"
    by (simp add: upstream_session_def field_or_null_def)
  with call ok show ?thesis by blast
qed

text \<open>
  Claim C9. For a visitor id without semicolon and equals sign that
  \<^verbatim>\<open>encodeURIComponent\<close> leaves unchanged, \<^verbatim>\<open>getCookieValue\<close> reads back from the
  string \<^verbatim>\<open>serializeSessionCookie\<close> wrote exactly that id.
\<close>

theorem session_cookie_roundtrip:
  assumes "CHR '';'' \<notin> set v" and "CHR ''='' \<notin> set v" and "encodeURIComponent v = v"
  shows "getCookieValue (Some (serializeSessionCookie e v)) SESSION_COOKIE_NAME = Some v"
proof -
  obtain rest where h: "serializeSessionCookie e v =
      (SESSION_COOKIE_NAME @ CHR ''='' # v) @ CHR '';'' # rest"
    using serialize_shape [of e v] assms(3) by auto
  have nosemi: "CHR '';'' \<notin> set (SESSION_COOKIE_NAME @ CHR ''='' # v)"
    using assms(1) name_facts(2) by simp
  have parts: "split_on CHR '';'' (serializeSessionCookie e v) =
      (SESSION_COOKIE_NAME @ CHR ''='' # v) # split_on CHR '';'' rest"
    unfolding h using nosemi by (rule split_on_first)
  have first: "split_on CHR ''='' (SESSION_COOKIE_NAME @ CHR ''='' # v) =
      [SESSION_COOKIE_NAME, v]"
    using split_on_first [OF name_facts(1), of v] split_on_absent [OF assms(2)] by simp
  have "\<forall>c\<in>set v. \<not> js_whitespace c"
    using encodeURIComponent_fixed [OF assms(3)] unreserved_not_ws by blast
  then have tv: "trim v = v" by (rule trim_no_ws)
  have ne: "serializeSessionCookie e v \<noteq> []"
    unfolding h by simp
  show ?thesis
    unfolding getCookieValue_def using ne
    by (simp add: parts first name_facts tv)
qed

text \<open>The theorem at an id in the format of \<^verbatim>\<open>crypto.randomUUID\<close>.\<close>

theorem session_cookie_roundtrip_witness:
  "CHR '';'' \<notin> set ''123e4567-e89b-12d3-a456-426614174000'' \<and>
   CHR ''='' \<notin> set ''123e4567-e89b-12d3-a456-426614174000'' \<and>
   encodeURIComponent ''123e4567-e89b-12d3-a456-426614174000'' =
     ''123e4567-e89b-12d3-a456-426614174000'' \<and>
   getCookieValue
     (Some (serializeSessionCookie sample_env ''123e4567-e89b-12d3-a456-426614174000''))
     SESSION_COOKIE_NAME = Some ''123e4567-e89b-12d3-a456-426614174000''"
proof -
  have a: "CHR '';'' \<notin> set ''123e4567-e89b-12d3-a456-426614174000''" by simp
  have b: "CHR ''='' \<notin> set ''123e4567-e89b-12d3-a456-426614174000''" by simp
  have c: "encodeURIComponent ''123e4567-e89b-12d3-a456-426614174000'' =
      ''123e4567-e89b-12d3-a456-426614174000''"
    by (simp add: encodeURIComponent_def encode_unit_def uri_unreserved_def)
  from session_cookie_roundtrip [OF a b c, of sample_env] a b c show ?thesis by blast
qed

text \<open>
  Claim C10, as the code has it. Let \<open>n\<close> be the first string among \<open>error.message\<close>,
  \<open>message\<close>, \<open>details.error\<close>, \<open>details.error.message\<close> (the order in which
  \<^verbatim>\<open>part_000\<close> reads them). The two implementations return the same result exactly
  in these cases: when \<open>n\<close> is not empty, if \<open>n\<close> is also the first string in the order
  of \<^verbatim>\<open>route.ts\<close>; when \<open>n\<close> is empty, if the top-level \<open>error\<close> is a string; when
  there is no \<open>n\<close>, if the top-level \<open>error\<close> is a string or the top-level \<open>details\<close>
  is not one. In particular they agree whenever \<open>error.message\<close> is a string that is
  not empty; when the top-level \<open>error\<close> is a string and there is no \<open>n\<close>, both
  return that string; and both return null on every payload that is not an object.
\<close>

theorem extraction_agreement:
  "(extractUpstreamError_part0 p = extractUpstreamError p \<longleftrightarrow>
      (case first_string (nested_shapes p) of
         Some (c # cs) \<Rightarrow> first_string (error_shapes p) = Some (c # cs)
       | Some [] \<Rightarrow> string_field p ''error'' \<noteq> None
       | None \<Rightarrow> string_field p ''error'' \<noteq> None \<or> string_field p ''details'' = None)) \<and>
   ((\<exists>c cs. (case object_field p ''error'' of
               Some e \<Rightarrow> string_field e ''message'' | None \<Rightarrow> None) = Some (c # cs)) \<longrightarrow>
      extractUpstreamError_part0 p = extractUpstreamError p) \<and>
   (string_field p ''error'' = Some s \<longrightarrow> first_string (nested_shapes p) = None \<longrightarrow>
      extractUpstreamError_part0 p = Some s \<and> extractUpstreamError p = Some s) \<and>
   ((\<forall>kvs. p \<noteq> JObj kvs) \<longrightarrow>
      extractUpstreamError_part0 p = None \<and> extractUpstreamError p = None)"
proof (intro conjI impI)
  show "extractUpstreamError_part0 p = extractUpstreamError p \<longleftrightarrow>
      (case first_string (nested_shapes p) of
         Some (c # cs) \<Rightarrow> first_string (error_shapes p) = Some (c # cs)
       | Some [] \<Rightarrow> string_field p ''error'' \<noteq> None
       | None \<Rightarrow> string_field p ''error'' \<noteq> None \<or> string_field p ''details'' = None)"
    by (rule agreement_exact)
next
  assume "\<exists>c cs. (case object_field p ''error'' of
               Some e \<Rightarrow> string_field e ''message'' | None \<Rightarrow> None) = Some (c # cs)"
  then obtain c cs where em: "(case object_field p ''error'' of
               Some e \<Rightarrow> string_field e ''message'' | None \<Rightarrow> None) = Some (c # cs)"
    by blast
  then have e: "string_field p ''error'' = None"
    by (auto simp: string_field_def object_field_def split: json.splits option.splits)
  from em e have "first_string (nested_shapes p) = Some (c # cs)"
    and "first_string (error_shapes p) = Some (c # cs)"
    by (simp_all add: nested_shapes_def error_shapes_def)
  then show "extractUpstreamError_part0 p = extractUpstreamError p"
    by (simp add: agreement_exact)
next
  assume e: "string_field p ''error'' = Some s" and n: "first_string (nested_shapes p) = None"
  from e have r: "extractUpstreamError p = Some s"
    by (simp add: extractUpstreamError_first_string error_shapes_def)
  from e n have "extractUpstreamError_part0 p = extractUpstreamError p"
    by (simp add: agreement_exact)
  with r show "extractUpstreamError_part0 p = Some s" by simp
next
  assume e: "string_field p ''error'' = Some s"
  then show "extractUpstreamError p = Some s"
    by (simp add: extractUpstreamError_first_string error_shapes_def)
next
  assume "\<forall>kvs. p \<noteq> JObj kvs"
  then show "extractUpstreamError_part0 p = None" by (rule non_object_part0)
next
  assume "\<forall>kvs. p \<noteq> JObj kvs"
  then show "extractUpstreamError p = None" by (rule non_object_route)
qed

text \<open>
  The theorem at a payload with three messages, among them \<open>error.message\<close> and a
  string \<open>details\<close>, on which both implementations answer \<open>bad key\<close>; at a payload
  with a string \<open>error\<close> and a string \<open>details\<close>, on which both answer the
  \<open>error\<close>; and at a payload that is a string.
\<close>

theorem extraction_agreement_witness:
  "first_string (nested_shapes crowded_payload) = Some ''bad key'' \<and>
   first_string (error_shapes crowded_payload) = Some ''bad key'' \<and>
   string_field crowded_payload ''details'' = Some ''d'' \<and>
   extractUpstreamError_part0 crowded_payload = Some ''bad key'' \<and>
   extractUpstreamError crowded_payload = Some ''bad key'' \<and>
   string_field (JObj [(''error'', JStr ''e''), (''details'', JStr ''d'')]) ''error'' = Some ''e'' \<and>
   first_string (nested_shapes (JObj [(''error'', JStr ''e''), (''details'', JStr ''d'')])) = None \<and>
   extractUpstreamError_part0 (JObj [(''error'', JStr ''e''), (''details'', JStr ''d'')]) = Some ''e'' \<and>
   extractUpstreamError (JObj [(''error'', JStr ''e''), (''details'', JStr ''d'')]) = Some ''e'' \<and>
   extractUpstreamError_part0 (JStr ''Bad Gateway'') = None \<and>
   extractUpstreamError (JStr ''Bad Gateway'') = None"
proof -
  let ?q = "JObj [(''error'', JStr ''e''), (''details'', JStr ''d'')]"
  have n: "first_string (nested_shapes crowded_payload) = Some ''bad key''"
    by (simp add: crowded_payload_def nested_shapes_def string_field_def object_field_def)
  have f: "first_string (error_shapes crowded_payload) = Some ''bad key''"
    by (simp add: crowded_payload_def error_shapes_def string_field_def object_field_def)
  have d: "string_field crowded_payload ''details'' = Some ''d''"
    by (simp add: crowded_payload_def string_field_def)
  have r: "extractUpstreamError crowded_payload = Some ''bad key''"
    by (simp add: crowded_payload_def extractUpstreamError_def)
  have qe: "string_field ?q ''error'' = Some ''e''"
    by (simp add: string_field_def)
  have qn: "first_string (nested_shapes ?q) = None"
    by (simp add: nested_shapes_def string_field_def object_field_def)
  from extraction_agreement [of crowded_payload] n f r
  have one: "extractUpstreamError_part0 crowded_payload = Some ''bad key''" by simp
  from extraction_agreement [of ?q "''e''"] qe qn
  have q1: "extractUpstreamError_part0 ?q = Some ''e''"
    and q2: "extractUpstreamError ?q = Some ''e''"
    by simp_all
  from extraction_agreement [of "JStr ''Bad Gateway''"]
  have two: "extractUpstreamError_part0 (JStr ''Bad Gateway'') = None"
    and three: "extractUpstreamError (JStr ''Bad Gateway'') = None"
    by simp_all
  from n f d one r qe qn q1 q2 two three show ?thesis by blast
qed

text \<open>
  Claim C10 as stated fails. The implementation of \<^verbatim>\<open>part_000\<close> does not read a
  top-level string \<open>details\<close>, prefers \<open>message\<close> to a top-level string \<open>error\<close> and
  to \<open>details.error\<close>, and turns an empty message into null.
\<close>

theorem extraction_counterexample:
  "extractUpstreamError (JObj [(''details'', JStr ''x'')]) = Some ''x'' \<and>
   extractUpstreamError_part0 (JObj [(''details'', JStr ''x'')]) = None \<and>
   extractUpstreamError (JObj [(''error'', JStr ''e''), (''message'', JStr ''m'')]) = Some ''e'' \<and>
   extractUpstreamError_part0 (JObj [(''error'', JStr ''e''), (''message'', JStr ''m'')]) =
     Some ''m'' \<and>
   extractUpstreamError
     (JObj [(''details'', JObj [(''error'', JStr ''d'')]), (''message'', JStr ''m'')]) =
     Some ''d'' \<and>
   extractUpstreamError_part0
     (JObj [(''details'', JObj [(''error'', JStr ''d'')]), (''message'', JStr ''m'')]) =
     Some ''m'' \<and>
   extractUpstreamError (JObj [(''message'', JStr [])]) = Some [] \<and>
   extractUpstreamError_part0 (JObj [(''message'', JStr [])]) = None"
  by (simp add: extractUpstreamError_def extractUpstreamError_part0_def getNestedMessage_def)

section \<open>The chat panel: what the handlers change\<close>

text \<open>
  On an unmounted component both parts of \<^verbatim>\<open>getClientSecret\<close> leave the state
  alone.
\<close>

lemma begin_unmounted:
  "\<not> isMounted s \<Longrightarrow> fst (getClientSecret_begin wid cs s) = s"
  by (simp add: getClientSecret_begin_def Let_def)

lemma settle_unmounted:
  "\<not> isMounted s \<Longrightarrow> fst (getClientSecret_settle cs outcome s) = s"
  by (simp add: getClientSecret_settle_def Let_def split: sum.splits prod.splits)

text \<open>
  A fact saved by an invocation is in the processed set afterwards, and a fact in the
  processed set is never saved.
\<close>

lemma onClientTool_saves:
  "onClientTool tool s = (s', effects, ok) \<Longrightarrow>
     length (filter (is_save_of i) effects) \<le> (if i \<in> processedFacts s \<or> i = [] then 0 else 1) \<and>
     processedFacts s \<subseteq> processedFacts s' \<and>
     (filter (is_save_of i) effects \<noteq> [] \<longrightarrow> i \<in> processedFacts s')"
  by (auto simp: onClientTool_def Let_def split: if_splits)

lemma run_tools_saves:
  "length (filter (is_save_of i) (snd (run_tools tools s))) \<le>
     (if i \<in> processedFacts s \<or> i = [] then 0 else 1)"
proof (induction tools arbitrary: s)
  case Nil
  show ?case by simp
next
  case (Cons tool tools)
  obtain s1 effects ok where step: "onClientTool tool s = (s1, effects, ok)"
    by (cases "onClientTool tool s") auto
  obtain s2 effects' where rest: "run_tools tools s1 = (s2, effects')"
    by (cases "run_tools tools s1") auto
  note one = onClientTool_saves [OF step, of i]
  from Cons.IH [of s1] rest
  have ih: "length (filter (is_save_of i) effects') \<le>
      (if i \<in> processedFacts s1 \<or> i = [] then 0 else 1)" by simp
  have "length (filter (is_save_of i) (effects @ effects')) \<le>
      (if i \<in> processedFacts s \<or> i = [] then 0 else 1)"
  proof (cases "filter (is_save_of i) effects = []")
    case True
    with ih one show ?thesis by (auto split: if_splits)
  next
    case False
    with one have "i \<in> processedFacts s1" by simp
    with ih have "filter (is_save_of i) effects' = []" by simp
    with one show ?thesis by simp
  qed
  with step rest show ?case by simp
qed

section \<open>Claims about the chat panel\<close>

text \<open>
  Claim C5. An invocation named \<open>switch_theme\<close> whose \<open>theme\<close> parameter is
  \<open>light\<close> or \<open>dark\<close> calls \<open>onThemeRequest\<close> with that value and succeeds; with any
  other \<open>theme\<close> it fails and calls nothing. An invocation named \<open>record_fact\<close> whose
  \<open>fact_id\<close> is not empty and not yet processed calls \<open>onWidgetAction\<close> once, with type
  \<open>save\<close>, that id and the fact text with every run of white space replaced by one
  space and then trimmed, and succeeds. An invocation with any other name fails and calls
  nothing. The text so normalized is the words of the text with one space between them.
\<close>

theorem client_tool_dispatch:
  "(name tool = ''switch_theme'' \<longrightarrow>
      (\<forall>t. getStringParam (params tool) ''theme'' = Some t \<longrightarrow> t = ''light'' \<or> t = ''dark'' \<longrightarrow>
           onClientTool tool s = (s, [ThemeRequest t], True)) \<and>
      (getStringParam (params tool) ''theme'' \<noteq> Some ''light'' \<longrightarrow>
       getStringParam (params tool) ''theme'' \<noteq> Some ''dark'' \<longrightarrow>
           onClientTool tool s = (s, [], False))) \<and>
   (name tool = ''record_fact'' \<longrightarrow>
      (\<forall>i. getStringParam (params tool) ''fact_id'' = Some i \<longrightarrow> i \<noteq> [] \<longrightarrow>
           i \<notin> processedFacts s \<longrightarrow>
           onClientTool tool s =
             (s\<lparr>processedFacts := insert i (processedFacts s)\<rparr>,
              [WidgetAction
                 \<lparr>action_type = ''save'', factId = i,
                  factText =
                    trim (replace_ws_runs
                      (case getStringParam (params tool) ''fact_text'' of
                         Some t \<Rightarrow> t | None \<Rightarrow> []))\<rparr>],
              True))) \<and>
   (name tool \<noteq> ''switch_theme'' \<longrightarrow> name tool \<noteq> ''record_fact'' \<longrightarrow>
      onClientTool tool s = (s, [], False)) \<and>
   trim (replace_ws_runs t') = join '' '' (ws_words t')"
proof -
  have "trim (replace_ws_runs t') = join '' '' (ws_words t')"
    by (rule normalize_words)
  then show ?thesis
    by (auto simp: onClientTool_def Let_def)
qed

text \<open>The theorem at four invocations on the panel as first rendered.\<close>

theorem client_tool_dispatch_witness:
  "onClientTool (theme_tool ''dark'') initial_panel =
     (initial_panel, [ThemeRequest ''dark''], True) \<and>
   onClientTool (theme_tool ''blue'') initial_panel = (initial_panel, [], False) \<and>
   onClientTool (fact_tool ''f1'' ''  likes   tea '') initial_panel =
     (initial_panel\<lparr>processedFacts := {''f1''}\<rparr>,
      [WidgetAction \<lparr>action_type = ''save'', factId = ''f1'', factText = ''likes tea''\<rparr>],
      True) \<and>
   onClientTool other_tool initial_panel = (initial_panel, [], False) \<and>
   ws_words ''  likes   tea '' = [''likes'', ''tea'']"
proof -
  have norm: "trim (replace_ws_runs ''  likes   tea '') = ''likes tea''"
    by (simp add: trim_def js_whitespace_def)
  have ws: "ws_words ''  likes   tea '' = [''likes'', ''tea'']"
    by (simp add: ws_words.simps js_whitespace_def)
  have "onClientTool (theme_tool ''dark'') initial_panel =
      (initial_panel, [ThemeRequest ''dark''], True)"
    using client_tool_dispatch [of "theme_tool ''dark''" initial_panel]
    by (simp add: theme_tool_def getStringParam_def)
  moreover have "onClientTool (theme_tool ''blue'') initial_panel = (initial_panel, [], False)"
    using client_tool_dispatch [of "theme_tool ''blue''" initial_panel]
    by (simp add: theme_tool_def getStringParam_def)
  moreover have "onClientTool (fact_tool ''f1'' ''  likes   tea '') initial_panel =
     (initial_panel\<lparr>processedFacts := {''f1''}\<rparr>,
      [WidgetAction \<lparr>action_type = ''save'', factId = ''f1'', factText = ''likes tea''\<rparr>],
      True)"
    using client_tool_dispatch [of "fact_tool ''f1'' ''  likes   tea ''" initial_panel] norm
    by (simp add: fact_tool_def getStringParam_def initial_panel_def)
  moreover have "onClientTool other_tool initial_panel = (initial_panel, [], False)"
    using client_tool_dispatch [of other_tool initial_panel]
    by (simp add: other_tool_def)
  ultimately show ?thesis using ws by blast
qed




text \<open>
  Claim C7. Once the component is unmounted, no part of \<^verbatim>\<open>getClientSecret\<close> changes
  the state: not the part before the request, not the part that runs when the request
  has settled (success, \<^verbatim>\<open>catch\<close> and \<^verbatim>\<open>finally\<close>), for any outcome of the request,
  and so not a whole call. In particular a request in flight when the component unmounts
  leaves the errors and the initializing flag as they were.
\<close>

theorem unmounted_never_updates:
  "(\<not> isMounted s \<longrightarrow>
      fst (getClientSecret_begin wid cs s) = s \<and>
      fst (getClientSecret_settle cs outcome s) = s \<and>
      (\<forall>during. (\<forall>s'. \<not> isMounted s' \<longrightarrow> during s' = s') \<longrightarrow>
         fst (getClientSecret wid cs during outcome s) = s)) \<and>
   errors (fst (getClientSecret_settle cs outcome (unmount s))) = errors s \<and>
   isInitializingSession (fst (getClientSecret_settle cs outcome (unmount s))) =
     isInitializingSession s \<and>
   isMounted (fst (getClientSecret_settle cs outcome (unmount s))) = False"
proof -
  have u: "\<not> isMounted (unmount s)" by (simp add: unmount_def)
  have "fst (getClientSecret wid cs during outcome s) = s"
    if "\<not> isMounted s" and "\<forall>s'. \<not> isMounted s' \<longrightarrow> during s' = s'" for during
  proof -
    from that(1) have b: "fst (getClientSecret_begin wid cs s) = s" by (rule begin_unmounted)
    show ?thesis
    proof (cases "getClientSecret_begin wid cs s")
      case (Pair s1 thrown)
      with b have s1: "s1 = s" by simp
      show ?thesis
      proof (cases thrown)
        case None
        with Pair s1 that settle_unmounted [of s cs outcome] show ?thesis
          by (simp add: getClientSecret_def)
      next
        case (Some err)
        with Pair s1 show ?thesis by (simp add: getClientSecret_def)
      qed
    qed
  qed
  then show ?thesis
    using settle_unmounted [OF u, of cs outcome]
    by (auto simp: begin_unmounted settle_unmounted unmount_def)
qed

text \<open>
  The theorem at the panel as first rendered, unmounted while the request that the
  gateway will answer with an error page is in flight.
\<close>

theorem unmounted_never_updates_witness:
  "isMounted (unmount initial_panel) = False \<and>
   fst (getClientSecret_begin ''wf_123'' None (unmount initial_panel)) = unmount initial_panel \<and>
   fst (getClientSecret_settle None gateway_error_page (unmount initial_panel)) =
     unmount initial_panel \<and>
   fst (getClientSecret ''wf_123'' None (\<lambda>s. s) gateway_error_page (unmount initial_panel)) =
     unmount initial_panel \<and>
   errors (fst (getClientSecret_settle None gateway_error_page (unmount initial_panel))) =
     createInitialErrors \<and>
   isInitializingSession
     (fst (getClientSecret_settle None gateway_error_page (unmount initial_panel))) = True"
proof -
  have u: "isMounted (unmount initial_panel) = False" by (simp add: unmount_def)
  from unmounted_never_updates [of "unmount initial_panel" "''wf_123''" None gateway_error_page] u
  have "fst (getClientSecret_begin ''wf_123'' None (unmount initial_panel)) = unmount initial_panel"
    and "fst (getClientSecret_settle None gateway_error_page (unmount initial_panel)) =
      unmount initial_panel"
    and "fst (getClientSecret ''wf_123'' None (\<lambda>s. s) gateway_error_page (unmount initial_panel)) =
      unmount initial_panel"
    by simp_all
  with u show ?thesis by (simp add: unmount_def initial_panel_def)
qed

text \<open>
  Claim C8. Between two clearings of the processed facts (a thread change or a chat
  reset), whatever invocations arrive, \<open>onWidgetAction\<close> is called at most once for each
  fact id, and never for the empty id. An invocation named \<open>record_fact\<close> whose
  \<open>fact_id\<close> is missing, not a string, empty or already processed succeeds and calls
  nothing.
\<close>

theorem facts_saved_once:
  "length (filter (is_save_of i) (snd (run_tools tools (onThreadChange s)))) \<le> 1 \<and>
   length (filter (is_save_of i) (snd (run_tools tools (handleResetChat hasComponent s)))) \<le> 1 \<and>
   filter (is_save_of []) (snd (run_tools tools s)) = [] \<and>
   (name tool = ''record_fact'' \<longrightarrow>
    (case getStringParam (params tool) ''fact_id'' of
       None \<Rightarrow> True
     | Some fact_id \<Rightarrow> fact_id = [] \<or> fact_id \<in> processedFacts s) \<longrightarrow>
    onClientTool tool s = (s, [], True))"
proof (intro conjI)
  show "length (filter (is_save_of i) (snd (run_tools tools (onThreadChange s)))) \<le> 1"
    using run_tools_saves [of i tools "onThreadChange s"] by (simp split: if_splits)
  show "length (filter (is_save_of i)
      (snd (run_tools tools (handleResetChat hasComponent s)))) \<le> 1"
    using run_tools_saves [of i tools "handleResetChat hasComponent s"]
    by (simp split: if_splits)
  show "filter (is_save_of []) (snd (run_tools tools s)) = []"
    using run_tools_saves [of "[]" tools s] by simp
  show "name tool = ''record_fact'' \<longrightarrow>
    (case getStringParam (params tool) ''fact_id'' of
       None \<Rightarrow> True
     | Some fact_id \<Rightarrow> fact_id = [] \<or> fact_id \<in> processedFacts s) \<longrightarrow>
    onClientTool tool s = (s, [], True)"
    by (auto simp: onClientTool_def Let_def split: option.splits)
qed

text \<open>
  The theorem at a thread in which the fact \<open>f1\<close> is recorded three times, with
  another fact and an empty id in between: \<open>f1\<close> is saved once.
\<close>

theorem facts_saved_once_witness:
  "filter (is_save_of ''f1'')
     (snd (run_tools
        [fact_tool ''f1'' ''a'', fact_tool ''f1'' ''b'', fact_tool [] ''c'',
         fact_tool ''f2'' ''d'', fact_tool ''f1'' ''e'']
        (onThreadChange initial_panel))) =
     [WidgetAction \<lparr>action_type = ''save'', factId = ''f1'', factText = ''a''\<rparr>] \<and>
   name (fact_tool ''f1'' ''b'') = ''record_fact'' \<and>
   getStringParam (params (fact_tool ''f1'' ''b'')) ''fact_id'' = Some ''f1'' \<and>
   ''f1'' \<in> processedFacts (initial_panel\<lparr>processedFacts := {''f1''}\<rparr>) \<and>
   onClientTool (fact_tool ''f1'' ''b'') (initial_panel\<lparr>processedFacts := {''f1''}\<rparr>) =
     (initial_panel\<lparr>processedFacts := {''f1''}\<rparr>, [], True)"
proof -
  let ?seen = "initial_panel\<lparr>processedFacts := {''f1''}\<rparr>"
  have run: "filter (is_save_of ''f1'')
     (snd (run_tools
        [fact_tool ''f1'' ''a'', fact_tool ''f1'' ''b'', fact_tool [] ''c'',
         fact_tool ''f2'' ''d'', fact_tool ''f1'' ''e'']
        (onThreadChange initial_panel))) =
     [WidgetAction \<lparr>action_type = ''save'', factId = ''f1'', factText = ''a''\<rparr>]"
    by (simp add: onClientTool_def fact_tool_def getStringParam_def onThreadChange_def
        initial_panel_def trim_def js_whitespace_def Let_def)
  have n: "name (fact_tool ''f1'' ''b'') = ''record_fact''"
    and g: "getStringParam (params (fact_tool ''f1'' ''b'')) ''fact_id'' = Some ''f1''"
    and m: "''f1'' \<in> processedFacts ?seen"
    by (simp_all add: fact_tool_def getStringParam_def)
  from facts_saved_once [where s = ?seen and tool = "fact_tool ''f1'' ''b''" and i = "''f1''"
      and tools = "[]" and hasComponent = True]
  have "name (fact_tool ''f1'' ''b'') = ''record_fact'' \<longrightarrow>
    (case getStringParam (params (fact_tool ''f1'' ''b'')) ''fact_id'' of
       None \<Rightarrow> True
     | Some fact_id \<Rightarrow> fact_id = [] \<or> fact_id \<in> processedFacts ?seen) \<longrightarrow>
    onClientTool (fact_tool ''f1'' ''b'') ?seen = (?seen, [], True)"
    by blast
  with n g m have "onClientTool (fact_tool ''f1'' ''b'') ?seen = (?seen, [], True)"
    by simp
  with run n g m show ?thesis by blast
qed

end
